theory Spec2Isabelle
  imports Complex_Main
begin

section \<open>Data model of Parser.hpp\<close>

text \<open>
  The structs of the header. \<open>ParsedPoint\<close> holds \<^verbatim>\<open>float coordinates[3]\<close>: a fixed
  array of three floats, modelled as a triple so that its size is part of the type.
  The float type is a parameter \<open>'f\<close> of sort \<open>zero\<close>: the only float the code
  itself creates is the \<open>0\<close> of the value-initialised \<^verbatim>\<open>ParsedPoint()\<close>, every other
  one comes out of \<^verbatim>\<open>std::stof\<close>.
\<close>

record 'f ParsedPoint =
  coordinates :: "'f \<times> 'f \<times> 'f"

record 'f ParsedRing =
  points :: "'f ParsedPoint list"

record 'f ParsedPolygon =
  polygon_exteriorRing :: "'f ParsedRing"
  polygon_interiorRings :: "'f ParsedRing list"

text \<open>
  The fields \<^verbatim>\<open>exteriorRing\<close> and \<^verbatim>\<open>interiorRings\<close> of \<^verbatim>\<open>ParsedPolygon\<close> and
  \<^verbatim>\<open>polygonsByType\<close> of \<^verbatim>\<open>ParsedObject\<close> carry a prefix here: \<^verbatim>\<open>RingsWalker\<close> and
  \<^verbatim>\<open>PolygonsWalker\<close> have fields of the same names. An object's \<^verbatim>\<open>type\<close> and \<^verbatim>\<open>id\<close>
  are \<open>object_type\<close> and \<open>object_id\<close>. A \<^verbatim>\<open>std::map\<close> that is only indexed is a
  partial function from its keys; the one that is iterated, an object's
  \<^verbatim>\<open>polygonsByType\<close>, is the list of its entries.
\<close>

record 'f ParsedObject =
  object_type :: string
  object_id :: string
  attributes :: "string \<rightharpoonup> string"
  object_polygonsByType :: "(string \<times> 'f ParsedPolygon list) list"
  trianglesByType :: "string \<rightharpoonup> 'f list"
  edges :: "'f list"

text \<open>
  An XML node as the walkers see it through pugixml: \<^verbatim>\<open>node.name()\<close>,
  \<^verbatim>\<open>node.child_value()\<close> and the child nodes that \<^verbatim>\<open>traverse\<close> descends into.
  A text node is a node whose name is empty.
\<close>

datatype xml_node = Node (name: string) (child_value: string) (children: "xml_node list")

section \<open>The C and C++ library functions the walkers call\<close>

subsection \<open>Formatted extraction from a string stream\<close>

text \<open>
  \<^verbatim>\<open>std::istringstream iss(coordinates)\<close> is the text not yet read, with the two state
  bits the loop depends on. \<^verbatim>\<open>iss >> substring\<close> first builds a sentry: a stream that
  is not good only gets \<open>failbit\<close>; otherwise leading whitespace is skipped, and
  reaching the end there sets \<open>eofbit\<close> and \<open>failbit\<close>. Then the characters up to the
  next whitespace are extracted, and \<open>eofbit\<close> is set when the text ends with them.
  \<^verbatim>\<open>substring\<close> is declared inside the loop body, so it is empty whenever nothing
  is extracted. \<^verbatim>\<open>while (iss)\<close> tests \<open>\<not> failbit\<close>.
\<close>

definition isspace :: "char \<Rightarrow> bool" where
  "isspace c \<longleftrightarrow> c \<in> set [CHR '' '', CHR 0x09, CHR 0x0A, CHR 0x0B, CHR 0x0C, CHR 0x0D]"

record istringstream =
  buf :: string
  eofbit :: bool
  failbit :: bool

definition istringstream_of :: "string \<Rightarrow> istringstream" where
  "istringstream_of s = \<lparr>buf = s, eofbit = False, failbit = False\<rparr>"

definition extract_string :: "istringstream \<Rightarrow> string \<times> istringstream" where
  "extract_string iss =
     (if eofbit iss \<or> failbit iss then ([], iss\<lparr>failbit := True\<rparr>)
      else
        let r = dropWhile isspace (buf iss) in
        if r = [] then ([], iss\<lparr>buf := [], eofbit := True, failbit := True\<rparr>)
        else
          let r' = dropWhile (\<lambda>c. \<not> isspace c) r in
          (takeWhile (\<lambda>c. \<not> isspace c) r, iss\<lparr>buf := r', eofbit := (r' = [])\<rparr>))"

subsection \<open>std::stof\<close>

text \<open>
  \<^verbatim>\<open>std::stof\<close> has three outcomes: the converted value, \<^verbatim>\<open>std::invalid_argument\<close>
  when no conversion could be performed, and \<^verbatim>\<open>std::out_of_range\<close> when the
  conversion reports a range error. The walker is modelled over any function with
  these outcomes; \<open>std_stof\<close> below is the conversion the C standard describes for
  \<^verbatim>\<open>strtof\<close>, with the range check of single precision.
\<close>

datatype 'f stof_result = Value 'f | Invalid_argument | Out_of_range

text \<open>
  The value a conversion yields: a finite float, as the rational number it is, an
  infinity or a NaN. Signs of zero, infinity and NaN are not kept.
\<close>

datatype cfloat = Finite rat | Infinity | NaN

instantiation cfloat :: zero
begin
definition zero_cfloat :: cfloat where
  "zero_cfloat = Finite 0"
instance ..
end

definition is_digit :: "char \<Rightarrow> bool" where
  "is_digit c \<longleftrightarrow> c \<in> set ''0123456789''"

definition is_xdigit :: "char \<Rightarrow> bool" where
  "is_xdigit c \<longleftrightarrow> c \<in> set ''0123456789abcdefABCDEF''"

definition digit_value :: "char \<Rightarrow> nat" where
  "digit_value c =
     (if is_digit c then of_char c - 48
      else if c \<in> set ''abcdef'' then of_char c - 87
      else of_char c - 55)"

definition digits_value :: "nat \<Rightarrow> string \<Rightarrow> nat" where
  "digits_value base ds = foldl (\<lambda>a c. base * a + digit_value c) 0 ds"

definition tolower :: "char \<Rightarrow> char" where
  "tolower c =
     (if c \<in> set ''ABCDEFGHIJKLMNOPQRSTUVWXYZ'' then char_of (of_char c + 32 :: nat) else c)"

text \<open>
  The optional exponent part: a marker (\<open>e\<close>, \<open>E\<close> for decimal, \<open>p\<close>, \<open>P\<close> for
  hexadecimal text), an optional sign and at least one decimal digit. A marker that
  no digit follows is not part of the number, which then has exponent \<open>0\<close>.
\<close>

definition exponent_part :: "string \<Rightarrow> string \<Rightarrow> int" where
  "exponent_part marks s =
     (case s of
        [] \<Rightarrow> 0
      | m # r \<Rightarrow>
          if m \<in> set marks then
            (let negative = (r \<noteq> [] \<and> hd r = CHR ''-'');
                 r' = (if r \<noteq> [] \<and> (hd r = CHR ''-'' \<or> hd r = CHR ''+'') then tl r else r);
                 ds = takeWhile is_digit r' in
             if ds = [] then 0
             else if negative then - int (digits_value 10 ds)
             else int (digits_value 10 ds))
          else 0)"

definition scale :: "rat \<Rightarrow> nat \<Rightarrow> int \<Rightarrow> rat" where
  "scale m b e = (if 0 \<le> e then m * of_nat b ^ nat e else m / of_nat b ^ nat (- e))"

text \<open>
  Digits with an optional radix point, at least one digit in all, then the
  exponent part. Text after the longest such prefix is ignored, as \<^verbatim>\<open>strtof\<close>
  ignores it (\<^verbatim>\<open>std::stof\<close> is called without a position argument).
\<close>

definition mantissa_literal ::
  "(char \<Rightarrow> bool) \<Rightarrow> nat \<Rightarrow> nat \<Rightarrow> string \<Rightarrow> string \<Rightarrow> rat option" where
  "mantissa_literal digit base radix_weight marks s =
     (let ip = takeWhile digit s;
          r1 = dropWhile digit s;
          has_point = (r1 \<noteq> [] \<and> hd r1 = CHR ''.'');
          fp = (if has_point then takeWhile digit (tl r1) else []);
          r2 = (if has_point then dropWhile digit (tl r1) else r1) in
      if ip = [] \<and> fp = [] then None
      else Some (scale (of_nat (digits_value base (ip @ fp))) (if base = 16 then 2 else 10)
                  (exponent_part marks r2 - int (radix_weight * length fp))))"

definition unsigned_literal :: "string \<Rightarrow> cfloat option" where
  "unsigned_literal s =
     (if map tolower (take 3 s) = ''inf'' then Some Infinity
      else if map tolower (take 3 s) = ''nan'' then Some NaN
      else
        (case (if map tolower (take 2 s) = ''0x''
               then mantissa_literal is_xdigit 16 4 ''pP'' (drop 2 s) else None) of
           Some q \<Rightarrow> Some (Finite q)
         | None \<Rightarrow> map_option Finite (mantissa_literal is_digit 10 1 ''eE'' s)))"

text \<open>
  \<^verbatim>\<open>strtof\<close>: leading whitespace, an optional sign, then a decimal or hexadecimal
  number, \<open>INF\<close>, \<open>INFINITY\<close>, \<open>NAN\<close> or \<open>NAN(...)\<close> in any case. \<open>None\<close> is "no
  conversion could be performed". \<open>strtof\<close> here yields the exact value of the text;
  \<open>std_stof\<close> below rounds it.
\<close>

definition strtof :: "string \<Rightarrow> cfloat option" where
  "strtof s =
     (let s1 = dropWhile isspace s;
          negative = (s1 \<noteq> [] \<and> hd s1 = CHR ''-'');
          s2 = (if s1 \<noteq> [] \<and> (hd s1 = CHR ''-'' \<or> hd s1 = CHR ''+'') then tl s1 else s1) in
      case unsigned_literal s2 of
        None \<Rightarrow> None
      | Some (Finite q) \<Rightarrow> Some (Finite (if negative then - q else q))
      | Some x \<Rightarrow> Some x)"

text \<open>
  Rounding to single precision, to nearest with ties to even: the spacing of the
  floats around a value with binary exponent \<open>e\<close> is \<open>2\<^sup>e\<^sup>-\<^sup>2\<^sup>3\<close>, and \<open>2\<^sup>-\<^sup>1\<^sup>4\<^sup>9\<close> for
  every exponent below \<open>-126\<close> (the subnormal numbers). \<open>bit_length\<close> is the number
  of binary digits of a positive integer.
\<close>

function bit_length :: "int \<Rightarrow> nat" where
  "bit_length n = (if n \<le> 0 then 0 else Suc (bit_length (n div 2)))"
  by pat_completeness auto
termination
  by (relation "measure nat") auto

declare bit_length.simps [simp del]

definition binary_exponent :: "rat \<Rightarrow> int" where
  "binary_exponent a =
     (case quotient_of a of (p, q) \<Rightarrow>
        let d = int (bit_length p) - int (bit_length q) in
        if scale 1 2 d \<le> a then d else d - 1)"

definition round_half_even :: "rat \<Rightarrow> int" where
  "round_half_even x =
     (let f = \<lfloor>x\<rfloor>; r = x - of_int f in
      if r < 1 / 2 then f
      else if 1 / 2 < r then f + 1
      else if even f then f else f + 1)"

definition round_to_float :: "rat \<Rightarrow> rat" where
  "round_to_float q =
     (if q = 0 then 0
      else
        let ulp = scale 1 2 (max (binary_exponent \<bar>q\<bar>) (- 126) - 23) in
        sgn q * of_int (round_half_even (\<bar>q\<bar> / ulp)) * ulp)"

text \<open>
  The range error of \<^verbatim>\<open>strtof\<close> (\<^verbatim>\<open>ERANGE\<close>), as the GNU C library reports it: the
  rounded magnitude is above \<^verbatim>\<open>FLT_MAX\<close> (it reaches \<open>2\<^sup>1\<^sup>2\<^sup>8\<close>), or the result is
  below \<^verbatim>\<open>FLT_MIN = 2\<^sup>-\<^sup>1\<^sup>2\<^sup>6\<close> in magnitude and not exact. A subnormal number that the
  text denotes exactly converts without error. \<^verbatim>\<open>std::stof\<close> throws
  \<^verbatim>\<open>std::out_of_range\<close> on the range error and returns the rounded value otherwise.
\<close>

definition float_range_error :: "rat \<Rightarrow> bool" where
  "float_range_error q \<longleftrightarrow>
     (let r = round_to_float q in 2 ^ 128 \<le> \<bar>r\<bar> \<or> (\<bar>r\<bar> < 1 / 2 ^ 126 \<and> r \<noteq> q))"

definition std_stof :: "string \<Rightarrow> cfloat stof_result" where
  "std_stof s =
     (case strtof s of
        None \<Rightarrow> Invalid_argument
      | Some (Finite q) \<Rightarrow>
          if float_range_error q then Out_of_range else Value (Finite (round_to_float q))
      | Some x \<Rightarrow> Value x)"

section \<open>PointsWalker\<close>

text \<open>
  The walker's only field is \<^verbatim>\<open>points\<close>, so its state is that list; \<^verbatim>\<open>std::cout\<close>
  is the list of lines written so far. \<^verbatim>\<open>for_each\<close> either returns its \<^verbatim>\<open>bool\<close>
  with the new state, or is left by the exception that its \<^verbatim>\<open>catch\<close> clause does not
  name.
\<close>

datatype exception = Uncaught_out_of_range

type_synonym 'f points_state = "'f ParsedPoint list \<times> string list"

definition set_coordinate :: "nat \<Rightarrow> 'f \<Rightarrow> 'f ParsedPoint \<Rightarrow> 'f ParsedPoint" where
  "set_coordinate i v p =
     (case coordinates p of (x, y, z) \<Rightarrow>
        if i = 0 then p\<lparr>coordinates := (v, y, z)\<rparr>
        else if i = 1 then p\<lparr>coordinates := (x, v, z)\<rparr>
        else p\<lparr>coordinates := (x, y, v)\<rparr>)"

text \<open>
  \<^verbatim>\<open>points.back().coordinates[currentCoordinate] = v\<close>. The list is never empty
  here: a point is pushed whenever \<open>currentCoordinate\<close> is \<open>0\<close>.
\<close>

definition assign_back :: "nat \<Rightarrow> 'f \<Rightarrow> 'f ParsedPoint list \<Rightarrow> 'f ParsedPoint list" where
  "assign_back i v ps = (if ps = [] then [] else butlast ps @ [set_coordinate i v (last ps)])"

definition new_ParsedPoint :: "('f::zero) ParsedPoint" where
  "new_ParsedPoint = \<lparr>coordinates = (0, 0, 0)\<rparr>"

definition invalid_point_line :: "string \<Rightarrow> string" where
  "invalid_point_line substring = ''Invalid point: '' @ substring @ ''. Skipping...''"

definition wrong_number_line :: string where
  "wrong_number_line = ''Wrong number of coordinates: not divisible by 3''"

text \<open>
  The \<^verbatim>\<open>do ... while (iss)\<close> loop. Its result is how the loop is left: by falling
  out of the loop with the coordinate counter and the points, by the \<^verbatim>\<open>return true\<close>
  of the \<^verbatim>\<open>catch\<close> clause (with the offending token, for the line it prints), or by an
  exception.
\<close>

datatype 'f loop_exit =
    Fell_through nat "'f ParsedPoint list"
  | Caught_invalid string
  | Thrown exception

function points_loop ::
  "(string \<Rightarrow> ('f::zero) stof_result) \<Rightarrow> istringstream \<Rightarrow> nat \<Rightarrow> 'f ParsedPoint list \<Rightarrow> 'f loop_exit"
where
  "points_loop stof iss currentCoordinate pts =
     (let r = extract_string iss; substring = fst r; iss' = snd r in
      if length substring > 0 then
        (let pts1 = (if currentCoordinate = 0 then pts @ [new_ParsedPoint] else pts) in
         case stof substring of
           Value v \<Rightarrow>
             (let pts2 = assign_back currentCoordinate v pts1;
                  currentCoordinate' = (currentCoordinate + 1) mod 3 in
              if \<not> failbit iss' then points_loop stof iss' currentCoordinate' pts2
              else Fell_through currentCoordinate' pts2)
         | Invalid_argument \<Rightarrow> Caught_invalid substring
         | Out_of_range \<Rightarrow> Thrown Uncaught_out_of_range)
      else if \<not> failbit iss' then points_loop stof iss' currentCoordinate pts
      else Fell_through currentCoordinate pts)"
  by pat_completeness auto

lemma dropWhile_nonspace_shorter:
  assumes "r = dropWhile isspace s" and "r \<noteq> []"
  shows "length (dropWhile (\<lambda>c. \<not> isspace c) r) < length s"
proof -
  from assms have "\<not> isspace (hd r)" using hd_dropWhile by metis
  with assms(2) obtain c cs where r: "r = c # cs" "\<not> isspace c" by (cases r) auto
  then have "length (dropWhile (\<lambda>c. \<not> isspace c) r) \<le> length cs"
    by (simp add: length_dropWhile_le)
  also have "\<dots> < length r" using r by simp
  also have "\<dots> \<le> length s" using assms(1) by (simp add: length_dropWhile_le)
  finally show ?thesis .
qed

lemma takeWhile_nonspace_nonempty:
  assumes "r = dropWhile isspace s" and "r \<noteq> []"
  shows "takeWhile (\<lambda>c. \<not> isspace c) r \<noteq> []"
proof -
  from assms have "\<not> isspace (hd r)" using hd_dropWhile by metis
  with assms(2) show ?thesis by (cases r) auto
qed

lemma extract_string_consumes:
  "fst (extract_string iss) \<noteq> [] \<Longrightarrow> length (buf (snd (extract_string iss))) < length (buf iss)"
  by (auto simp: extract_string_def Let_def dropWhile_nonspace_shorter split: if_splits)

lemma extract_string_empty_fails:
  "fst (extract_string iss) = [] \<Longrightarrow> failbit (snd (extract_string iss))"
  by (auto simp: extract_string_def Let_def takeWhile_nonspace_nonempty split: if_splits)

termination points_loop
proof (relation "measure (\<lambda>(stof, iss, cc, pts). length (buf iss))", goal_cases)
  case 1
  then show ?case by simp
next
  case (2 stof iss cc pts r substring iss' pts1 v pts2 cc')
  then show ?case using extract_string_consumes[of iss] by auto
next
  case (3 stof iss cc pts r substring iss')
  then show ?case using extract_string_empty_fails[of iss] by auto
qed

declare points_loop.simps [simp del]

text \<open>
  \<^verbatim>\<open>PointsWalker::for_each\<close>. The name test is \<^verbatim>\<open>strcmp\<close> on the full name; the counter
  starts at \<open>0\<close>; after the loop a counter other than \<open>0\<close> prints a line and clears
  the points; every path that returns, returns \<^verbatim>\<open>true\<close>.
\<close>

definition PointsWalker_for_each ::
  "(string \<Rightarrow> ('f::zero) stof_result) \<Rightarrow> 'f points_state \<Rightarrow> xml_node
     \<Rightarrow> exception + (bool \<times> 'f points_state)"
where
  "PointsWalker_for_each stof st node =
     (case st of (pts, cout) \<Rightarrow>
        if name node = ''gml:pos'' \<or> name node = ''gml:posList'' then
          (case points_loop stof (istringstream_of (child_value node)) 0 pts of
             Fell_through currentCoordinate pts' \<Rightarrow>
               if currentCoordinate \<noteq> 0 then Inr (True, [], cout @ [wrong_number_line])
               else Inr (True, pts', cout)
           | Caught_invalid substring \<Rightarrow> Inr (True, [], cout @ [invalid_point_line substring])
           | Thrown e \<Rightarrow> Inl e)
        else Inr (True, pts, cout))"

section \<open>Tree traversal\<close>

text \<open>
  \<^verbatim>\<open>xml_node::traverse\<close> of pugixml calls \<^verbatim>\<open>for_each\<close> on every descendant of the node
  it is called on (not on that node itself), in document order, with \<^verbatim>\<open>depth()\<close>
  counted from \<open>0\<close> at the children, and stops as soon as a call returns \<^verbatim>\<open>false\<close>.
  An exception leaves the traversal where it is thrown.
\<close>

fun preorder :: "nat \<Rightarrow> xml_node \<Rightarrow> (nat \<times> xml_node) list" where
  "preorder d (Node n v cs) = (d, Node n v cs) # concat (map (preorder (Suc d)) cs)"

definition descendants :: "xml_node \<Rightarrow> (nat \<times> xml_node) list" where
  "descendants origin = concat (map (preorder 0) (children origin))"

fun run_walker ::
  "(nat \<Rightarrow> 'w \<Rightarrow> xml_node \<Rightarrow> 'e + (bool \<times> 'w)) \<Rightarrow> (nat \<times> xml_node) list \<Rightarrow> 'w \<Rightarrow> 'e + (bool \<times> 'w)"
where
  "run_walker for_each [] w = Inr (True, w)"
| "run_walker for_each ((d, n) # rest) w =
     (case for_each d w n of
        Inl e \<Rightarrow> Inl e
      | Inr (continue, w') \<Rightarrow> if continue then run_walker for_each rest w' else Inr (False, w'))"

definition traverse ::
  "(nat \<Rightarrow> 'w \<Rightarrow> xml_node \<Rightarrow> 'e + (bool \<times> 'w)) \<Rightarrow> xml_node \<Rightarrow> 'w \<Rightarrow> 'e + (bool \<times> 'w)"
where
  "traverse for_each origin w = run_walker for_each (descendants origin) w"

text \<open>
  \<^verbatim>\<open>node.traverse(walker)\<close> for a \<^verbatim>\<open>PointsWalker\<close>, whose \<^verbatim>\<open>for_each\<close> does not read
  \<^verbatim>\<open>depth()\<close>.
\<close>

definition PointsWalker_traverse ::
  "(string \<Rightarrow> ('f::zero) stof_result) \<Rightarrow> xml_node \<Rightarrow> 'f points_state
     \<Rightarrow> exception + (bool \<times> 'f points_state)"
where
  "PointsWalker_traverse stof origin st = traverse (\<lambda>depth. PointsWalker_for_each stof) origin st"

section \<open>RingsWalker\<close>

text \<open>
  \<^verbatim>\<open>exteriorRing\<close> is a default-constructed (null) node handle until it is
  assigned: \<open>None\<close>. The names are compared in full, prefix included.
\<close>

record RingsWalker =
  exteriorRing :: "xml_node option"
  interiorRings :: "xml_node list"

definition new_RingsWalker :: RingsWalker where
  "new_RingsWalker = \<lparr>exteriorRing = None, interiorRings = []\<rparr>"

definition RingsWalker_for_each :: "RingsWalker \<Rightarrow> xml_node \<Rightarrow> bool \<times> RingsWalker" where
  "RingsWalker_for_each w node =
     (if name node = ''gml:exterior'' then (True, w\<lparr>exteriorRing := Some node\<rparr>)
      else if name node = ''gml:interior'' then (True, w\<lparr>interiorRings := interiorRings w @ [node]\<rparr>)
      else (True, w))"

section \<open>PolygonsWalker and ObjectsWalker\<close>

text \<open>
  \<^verbatim>\<open>strchr(nodeType, ':')\<close> finds the first colon; the type is what follows it, or
  the whole name when there is none.
\<close>

definition local_name :: "string \<Rightarrow> string" where
  "local_name nodeType =
     (if CHR '':'' \<in> set nodeType then tl (dropWhile (\<lambda>c. c \<noteq> CHR '':'') nodeType)
      else nodeType)"

text \<open>
  \<^verbatim>\<open>depthToStop\<close> is \<^verbatim>\<open>unsigned int\<close> and \<^verbatim>\<open>depth()\<close> is an \<^verbatim>\<open>int\<close> that is never
  negative inside \<^verbatim>\<open>for_each\<close>: both are natural numbers here (a document is not
  \<open>2\<^sup>3\<^sup>1\<close> levels deep). \<^verbatim>\<open>depthToStop\<close> has no initialiser; the walker starts with
  some value \<open>d0\<close>, which is not read while \<^verbatim>\<open>inDefinedType\<close> is empty.
  \<^verbatim>\<open>polygonsByType[k].push_back(node)\<close> creates the empty list under a new key.
\<close>

record PolygonsWalker =
  polygonsByType :: "string \<rightharpoonup> xml_node list"
  inDefinedType :: string
  depthToStop :: nat

definition new_PolygonsWalker :: "nat \<Rightarrow> PolygonsWalker" where
  "new_PolygonsWalker d0 = \<lparr>polygonsByType = Map.empty, inDefinedType = [], depthToStop = d0\<rparr>"

definition push_back_at ::
  "(string \<rightharpoonup> xml_node list) \<Rightarrow> string \<Rightarrow> xml_node \<Rightarrow> (string \<rightharpoonup> xml_node list)" where
  "push_back_at m k node = m(k \<mapsto> (case m k of None \<Rightarrow> [] | Some l \<Rightarrow> l) @ [node])"

definition PolygonsWalker_for_each :: "nat \<Rightarrow> PolygonsWalker \<Rightarrow> xml_node \<Rightarrow> bool \<times> PolygonsWalker" where
  "PolygonsWalker_for_each depth w node =
     (let nodeType = local_name (name node);
          w1 = (if inDefinedType w \<noteq> [] \<and> depth \<le> depthToStop w
                then w\<lparr>inDefinedType := []\<rparr> else w) in
      if nodeType = ''Door'' \<or>
         nodeType = ''GroundSurface'' \<or>
         nodeType = ''RoofSurface'' \<or>
         nodeType = ''Window'' then
        (True, w1\<lparr>inDefinedType := nodeType, depthToStop := depth\<rparr>)
      else if nodeType = ''Polygon'' \<or>
              nodeType = ''Triangle'' then
        (True, w1\<lparr>polygonsByType := push_back_at (polygonsByType w1) (inDefinedType w1) node\<rparr>)
      else (True, w1))"

text \<open>The only field of \<^verbatim>\<open>ObjectsWalker\<close> is \<^verbatim>\<open>objects\<close>: its state is that list.\<close>

definition ObjectsWalker_for_each :: "xml_node list \<Rightarrow> xml_node \<Rightarrow> bool \<times> xml_node list" where
  "ObjectsWalker_for_each objects node =
     (let nodeType = local_name (name node) in
      if nodeType = ''AuxiliaryTrafficArea'' \<or>
         nodeType = ''Bridge'' \<or>
         nodeType = ''Building'' \<or>
         nodeType = ''BuildingPart'' \<or>
         nodeType = ''BuildingInstallation'' \<or>
         nodeType = ''CityFurniture'' \<or>
         nodeType = ''GenericCityObject'' \<or>
         nodeType = ''LandUse'' \<or>
         nodeType = ''PlantCover'' \<or>
         nodeType = ''Railway'' \<or>
         nodeType = ''ReliefFeature'' \<or>
         nodeType = ''Road'' \<or>
         nodeType = ''SolitaryVegetationObject'' \<or>
         nodeType = ''TrafficArea'' \<or>
         nodeType = ''Tunnel'' \<or>
         nodeType = ''WaterBody'' then (True, objects @ [node])
      else (True, objects))"

text \<open>
  Only \<^verbatim>\<open>PointsWalker::for_each\<close> can throw; the other walkers enter the traversal
  through \<open>returning\<close>.
\<close>

definition returning :: "('w \<Rightarrow> xml_node \<Rightarrow> bool \<times> 'w) \<Rightarrow> 'w \<Rightarrow> xml_node \<Rightarrow> exception + (bool \<times> 'w)" where
  "returning for_each w node = Inr (for_each w node)"

text \<open>\<^verbatim>\<open>node.traverse(walker)\<close> for the walkers that do not read \<^verbatim>\<open>depth()\<close>.\<close>

definition RingsWalker_traverse :: "xml_node \<Rightarrow> RingsWalker \<Rightarrow> exception + (bool \<times> RingsWalker)" where
  "RingsWalker_traverse origin w = traverse (\<lambda>depth. returning RingsWalker_for_each) origin w"

definition ObjectsWalker_traverse ::
  "xml_node \<Rightarrow> xml_node list \<Rightarrow> exception + (bool \<times> xml_node list)" where
  "ObjectsWalker_traverse origin objects =
     traverse (\<lambda>depth. returning ObjectsWalker_for_each) origin objects"

section \<open>Triangles and edges of an object\<close>

text \<open>
  \<^verbatim>\<open>Parser.hpp\<close> declares \<^verbatim>\<open>addTrianglesFromTheConstrainedTriangulationOfPolygon\<close>,
  \<^verbatim>\<open>regenerateTrianglesFor\<close>, \<^verbatim>\<open>regenerateEdgesFor\<close> and \<^verbatim>\<open>regenerateGeometries\<close>; their
  bodies are in \<^verbatim>\<open>Parser.cpp\<close>. The header gives the type of a face of the
  triangulation: \<^verbatim>\<open>FaceBaseWithInfo\<close> carries a \<^verbatim>\<open>std::pair<bool, bool>\<close> as its info.
  A face is that pair and the three points of the polygon that its vertices stand
  for. The triangulation itself (CGAL) and the labelling of its faces are a
  parameter \<open>classified_faces\<close> of everything below.
\<close>

record 'f Face =
  info :: "bool \<times> bool"
  vertices :: "'f ParsedPoint \<times> 'f ParsedPoint \<times> 'f ParsedPoint"

definition point_floats :: "'f ParsedPoint \<Rightarrow> 'f list" where
  "point_floats p = (case coordinates p of (x, y, z) \<Rightarrow> [x, y, z])"

text \<open>
  Modelled from the spec: the triangle emitted for a face (the body of
  \<^verbatim>\<open>addTrianglesFromTheConstrainedTriangulationOfPolygon\<close> is missing), "each kept
  triangle contributes 9 consecutive floats: 3 vertices x xyz", "using the original
  3D coordinates of its three vertices".
\<close>

definition triangle_floats :: "'f Face \<Rightarrow> 'f list" where
  "triangle_floats f =
     (case vertices f of (a, b, c) \<Rightarrow> point_floats a @ point_floats b @ point_floats c)"

text \<open>
  Modelled from the spec: the loop over the faces in the missing body of
  \<^verbatim>\<open>addTrianglesFromTheConstrainedTriangulationOfPolygon\<close>. The info of a face is
  (inside-exterior, inside-some-hole). "A face is kept iff inside-exterior is true
  and inside-some-hole is false. Discard all other faces silently." "For each kept
  face, emit a triangle ... appended to the owning object's triangle buffer".
\<close>

fun emit_kept_faces :: "'f Face list \<Rightarrow> 'f list \<Rightarrow> 'f list" where
  "emit_kept_faces [] triangles = triangles"
| "emit_kept_faces (f # fs) triangles =
     emit_kept_faces fs
       (if fst (info f) \<and> \<not> snd (info f) then triangles @ triangle_floats f else triangles)"

text \<open>
  Modelled from the spec: \<^verbatim>\<open>addTrianglesFromTheConstrainedTriangulationOfPolygon\<close>,
  whose body is missing. "A polygon with fewer than 3 valid exterior points is
  skipped before reaching this component."
\<close>

definition addTrianglesFromTheConstrainedTriangulationOfPolygon ::
  "('f ParsedPolygon \<Rightarrow> 'f Face list) \<Rightarrow> 'f ParsedPolygon \<Rightarrow> 'f list \<Rightarrow> 'f list" where
  "addTrianglesFromTheConstrainedTriangulationOfPolygon classified_faces polygon triangles =
     (if length (points (polygon_exteriorRing polygon)) < 3 then triangles
      else emit_kept_faces (classified_faces polygon) triangles)"

text \<open>
  Modelled from the spec: the segments of a ring in the missing body of
  \<^verbatim>\<open>regenerateEdgesFor\<close>, "each consecutive point pair plus the closing pair", each
  "as one 6-float segment ..., using original (unprojected) coordinates".
\<close>

fun ring_segments :: "'a list \<Rightarrow> ('a \<times> 'a) list" where
  "ring_segments [] = []"
| "ring_segments (p # ps) = zip (p # ps) (ps @ [p])"

definition segment_floats :: "'f ParsedPoint \<times> 'f ParsedPoint \<Rightarrow> 'f list" where
  "segment_floats s = point_floats (fst s) @ point_floats (snd s)"

definition ring_edges :: "'f ParsedRing \<Rightarrow> 'f list" where
  "ring_edges ring = concat (map segment_floats (ring_segments (points ring)))"

text \<open>
  Modelled from the spec: the edges of one polygon in the missing body of
  \<^verbatim>\<open>regenerateEdgesFor\<close>, "for every Ring in the polygon (exterior and interior)".
\<close>

definition polygon_edges :: "'f ParsedPolygon \<Rightarrow> 'f list" where
  "polygon_edges polygon =
     concat (map ring_edges (polygon_exteriorRing polygon # polygon_interiorRings polygon))"

text \<open>
  Modelled from the spec: the rebuilt triangle buffer of one surface type in the
  missing body of \<^verbatim>\<open>regenerateTrianglesFor\<close>: cleared, then the triangles of each
  polygon of the list appended.
\<close>

definition rebuild_triangles ::
  "('f ParsedPolygon \<Rightarrow> 'f Face list) \<Rightarrow> 'f ParsedPolygon list \<Rightarrow> 'f list" where
  "rebuild_triangles classified_faces polygons =
     foldl (\<lambda>triangles polygon.
              addTrianglesFromTheConstrainedTriangulationOfPolygon classified_faces polygon triangles)
           [] polygons"

text \<open>
  Modelled from the spec: \<^verbatim>\<open>regenerateTrianglesFor\<close>, whose body is missing: "for
  every surface-type polygon list, clears and rebuilds that surface-type's triangle
  buffer".
\<close>

definition regenerateTrianglesFor ::
  "('f ParsedPolygon \<Rightarrow> 'f Face list) \<Rightarrow> 'f ParsedObject \<Rightarrow> 'f ParsedObject" where
  "regenerateTrianglesFor classified_faces object =
     foldl (\<lambda>ob entry. ob\<lparr>trianglesByType :=
                (trianglesByType ob)(fst entry \<mapsto> rebuild_triangles classified_faces (snd entry))\<rparr>)
           object (object_polygonsByType object)"

text \<open>
  Modelled from the spec: \<^verbatim>\<open>regenerateEdgesFor\<close>, whose body is missing: it clears
  and rebuilds "the object's edge buffer" from every polygon of the object.
\<close>

definition regenerateEdgesFor :: "'f ParsedObject \<Rightarrow> 'f ParsedObject" where
  "regenerateEdgesFor object =
     object\<lparr>edges := concat (map polygon_edges (concat (map snd (object_polygonsByType object))))\<rparr>"

text \<open>
  Modelled from the spec: \<^verbatim>\<open>regenerateGeometries\<close>, whose body is missing: it
  "iterates every Object" of the parser's \<^verbatim>\<open>objects\<close>.
\<close>

definition regenerateGeometries ::
  "('f ParsedPolygon \<Rightarrow> 'f Face list) \<Rightarrow> 'f ParsedObject list \<Rightarrow> 'f ParsedObject list" where
  "regenerateGeometries classified_faces objects =
     map (\<lambda>object. regenerateEdgesFor (regenerateTrianglesFor classified_faces object)) objects"

section \<open>Vocabulary of the properties\<close>

text \<open>The whitespace-separated tokens of a text, in order.\<close>

function tokens :: "string \<Rightarrow> string list" where
  "tokens s =
     (let r = dropWhile isspace s in
      if r = [] then []
      else takeWhile (\<lambda>c. \<not> isspace c) r # tokens (dropWhile (\<lambda>c. \<not> isspace c) r))"
  by pat_completeness auto
termination
  by (relation "measure length") (auto simp: dropWhile_nonspace_shorter)

declare tokens.simps [simp del]

text \<open>Every three consecutive values grouped into one point.\<close>

fun points_of :: "'f list \<Rightarrow> 'f ParsedPoint list" where
  "points_of (x # y # z # vs) = \<lparr>coordinates = (x, y, z)\<rparr> # points_of vs"
| "points_of vs = []"

definition is_Value :: "'f stof_result \<Rightarrow> bool" where
  "is_Value r = (case r of Value v \<Rightarrow> True | Invalid_argument \<Rightarrow> False | Out_of_range \<Rightarrow> False)"

definition surface_types :: "string list" where
  "surface_types = [''Door'', ''GroundSurface'', ''RoofSurface'', ''Window'']"

definition city_object_types :: "string list" where
  "city_object_types =
     [''AuxiliaryTrafficArea'', ''Bridge'', ''Building'', ''BuildingPart'',
      ''BuildingInstallation'', ''CityFurniture'', ''GenericCityObject'', ''LandUse'',
      ''PlantCover'', ''Railway'', ''ReliefFeature'', ''Road'', ''SolitaryVegetationObject'',
      ''TrafficArea'', ''Tunnel'', ''WaterBody'']"

text \<open>
  The context in which a node at depth \<open>d\<close> is classified: the defined type that is
  still active there, or the empty string.
\<close>

definition active_type :: "nat \<Rightarrow> PolygonsWalker \<Rightarrow> string" where
  "active_type d w = (if inDefinedType w \<noteq> [] \<and> d \<le> depthToStop w then [] else inDefinedType w)"

definition filed :: "(string \<rightharpoonup> xml_node list) \<Rightarrow> string \<Rightarrow> xml_node list" where
  "filed m k = (case m k of None \<Rightarrow> [] | Some l \<Rightarrow> l)"

section \<open>Example documents\<close>

definition ring_of :: "string \<Rightarrow> string \<Rightarrow> xml_node" where
  "ring_of nm coords = Node nm [] [Node ''gml:LinearRing'' [] [Node ''gml:posList'' coords []]]"

definition example_polygon :: xml_node where
  "example_polygon =
     Node ''gml:Polygon'' []
       [ring_of ''gml:interior'' ''1 1 0 2 1 0 2 2 0'',
        ring_of ''gml:exterior'' ''0 0 0 4 0 0 4 4 0 0 4 0'',
        ring_of ''gml:interior'' ''3 3 0 3 2 0 2 3 0'']"

definition example_building :: xml_node where
  "example_building =
     Node ''bldg:Building'' []
       [Node ''bldg:boundedBy'' []
          [Node ''bldg:RoofSurface'' [] [Node ''gml:Polygon'' ''r'' []],
           Node ''bldg:GroundSurface'' [] [Node ''gml:Triangle'' ''g'' []],
           Node ''gml:Polygon'' ''u'' []]]"

text \<open>An object with one roof polygon, and a stand-in for its classified triangulation.\<close>

definition example_corner :: "nat \<Rightarrow> nat \<Rightarrow> nat ParsedPoint" where
  "example_corner x y = \<lparr>coordinates = (x, y, 0)\<rparr>"

definition unit_square :: "nat ParsedPolygon" where
  "unit_square =
     \<lparr>polygon_exteriorRing =
        \<lparr>points = [example_corner 0 0, example_corner 1 0, example_corner 1 1, example_corner 0 1]\<rparr>,
      polygon_interiorRings = []\<rparr>"

definition example_faces :: "nat ParsedPolygon \<Rightarrow> nat Face list" where
  "example_faces polygon =
     [\<lparr>info = (True, False),
       vertices = (example_corner 0 0, example_corner 1 0, example_corner 1 1)\<rparr>,
      \<lparr>info = (False, False),
       vertices = (example_corner 0 0, example_corner 1 1, example_corner 2 2)\<rparr>,
      \<lparr>info = (True, False),
       vertices = (example_corner 0 0, example_corner 1 1, example_corner 0 1)\<rparr>]"

definition example_object :: "nat ParsedObject" where
  "example_object =
     \<lparr>object_type = ''Building'', object_id = ''b1'', attributes = Map.empty,
      object_polygonsByType = [(''RoofSurface'', [unit_square])],
      trianglesByType = Map.empty, edges = [7]\<rparr>"

section \<open>The loop of PointsWalker, token by token\<close>

text \<open>
  What the loop does with the tokens of the text, one after the other:
  \<open>points_loop_tokens\<close> below shows that \<open>points_loop\<close> on a fresh stream is this
  function on the tokens of its text.
\<close>

fun convert_all ::
  "(string \<Rightarrow> ('f::zero) stof_result) \<Rightarrow> string list \<Rightarrow> nat \<Rightarrow> 'f ParsedPoint list \<Rightarrow> 'f loop_exit"
where
  "convert_all stof [] cc pts = Fell_through cc pts"
| "convert_all stof (t # ts) cc pts =
     (case stof t of
        Value v \<Rightarrow> convert_all stof ts ((cc + 1) mod 3)
                     (assign_back cc v (if cc = 0 then pts @ [new_ParsedPoint] else pts))
      | Invalid_argument \<Rightarrow> Caught_invalid t
      | Out_of_range \<Rightarrow> Thrown Uncaught_out_of_range)"

lemma points_loop_tokens:
  "\<not> failbit iss \<Longrightarrow> (eofbit iss \<Longrightarrow> buf iss = []) \<Longrightarrow>
   points_loop stof iss cc pts = convert_all stof (tokens (buf iss)) cc pts"
proof (induction stof iss cc pts rule: points_loop.induct)
  case (1 stof iss cc pts)
  show ?case
  proof (cases "eofbit iss")
    case True
    with 1(4) have "buf iss = []" by simp
    with True 1(3) show ?thesis
      by (subst points_loop.simps) (simp add: extract_string_def tokens.simps)
  next
    case False
    define r where "r = dropWhile isspace (buf iss)"
    show ?thesis
    proof (cases "r = []")
      case True
      with False 1(3) show ?thesis unfolding r_def
        by (subst points_loop.simps) (simp add: extract_string_def tokens.simps Let_def)
    next
      case nonempty: False
      define tok where "tok = takeWhile (\<lambda>c. \<not> isspace c) r"
      define r' where "r' = dropWhile (\<lambda>c. \<not> isspace c) r"
      define iss' where "iss' = iss\<lparr>buf := r', eofbit := (r' = [])\<rparr>"
      have ex: "extract_string iss = (tok, iss')"
        using False 1(3) nonempty
        by (auto simp: extract_string_def Let_def r_def tok_def r'_def iss'_def)
      have fs: "fst (extract_string iss) = tok" "snd (extract_string iss) = iss'"
        by (simp_all add: ex)
      have tok: "tok \<noteq> []"
        unfolding tok_def using takeWhile_nonspace_nonempty[OF r_def nonempty] .
      have toks: "tokens (buf iss) = tok # tokens r'"
        using nonempty by (subst tokens.simps) (simp add: Let_def r_def tok_def r'_def)
      have good': "\<not> failbit iss'" "eofbit iss' \<Longrightarrow> buf iss' = []" "buf iss' = r'"
        using 1(3) by (simp_all add: iss'_def)
      show ?thesis
      proof (cases "stof tok")
        case (Value v)
        let ?pts2 = "assign_back cc v (if cc = 0 then pts @ [new_ParsedPoint] else pts)"
        have "points_loop stof iss cc pts = points_loop stof iss' ((cc + 1) mod 3) ?pts2"
          using ex tok Value good'(1) by (subst points_loop.simps) (simp add: Let_def)
        also have "\<dots> = convert_all stof (tokens (buf iss')) ((cc + 1) mod 3) ?pts2"
        proof -
          have "points_loop stof (snd (extract_string iss)) ((cc + 1) mod 3) ?pts2 =
                convert_all stof (tokens (buf (snd (extract_string iss)))) ((cc + 1) mod 3) ?pts2"
          proof (rule 1(1)[OF refl refl refl _ refl _ refl refl])
            show "0 < length (fst (extract_string iss))" using tok by (simp add: fs)
            show "stof (fst (extract_string iss)) = Value v" using Value by (simp add: fs)
            show "\<not> failbit (snd (extract_string iss))" using good'(1) by (simp add: fs)
            then show "\<not> failbit (snd (extract_string iss))" .
            show "buf (snd (extract_string iss)) = []" if "eofbit (snd (extract_string iss))"
              using that good'(2) by (simp add: fs)
          qed
          then show ?thesis by (simp only: fs)
        qed
        finally show ?thesis using Value by (simp add: toks good'(3))
      next
        case Invalid_argument
        then show ?thesis using ex tok toks by (subst points_loop.simps) (simp add: Let_def)
      next
        case Out_of_range
        then show ?thesis using ex tok toks by (subst points_loop.simps) (simp add: Let_def)
      qed
    qed
  qed
qed

lemma points_loop_fresh:
  "points_loop stof (istringstream_of s) cc pts = convert_all stof (tokens s) cc pts"
  using points_loop_tokens[of "istringstream_of s" stof cc pts]
  by (simp add: istringstream_of_def)

lemma for_each_tokens:
  "name node = ''gml:pos'' \<or> name node = ''gml:posList'' \<Longrightarrow>
   PointsWalker_for_each stof (pts, cout) node =
     (case convert_all stof (tokens (child_value node)) 0 pts of
        Fell_through cc pts' \<Rightarrow>
          if cc \<noteq> 0 then Inr (True, [], cout @ [wrong_number_line]) else Inr (True, pts', cout)
      | Caught_invalid substring \<Rightarrow> Inr (True, [], cout @ [invalid_point_line substring])
      | Thrown e \<Rightarrow> Inl e)"
  by (simp add: PointsWalker_for_each_def points_loop_fresh)

lemma convert_all_invalid:
  "\<forall>s\<in>set pre. is_Value (stof s) \<Longrightarrow> stof t = Invalid_argument \<Longrightarrow>
   convert_all stof (pre @ t # post) cc pts = Caught_invalid t"
  by (induction pre arbitrary: cc pts) (auto simp: is_Value_def split: stof_result.splits)

lemma convert_all_out_of_range:
  "\<forall>s\<in>set pre. is_Value (stof s) \<Longrightarrow> stof t = Out_of_range \<Longrightarrow>
   convert_all stof (pre @ t # post) cc pts = Thrown Uncaught_out_of_range"
  by (induction pre arbitrary: cc pts) (auto simp: is_Value_def split: stof_result.splits)

lemma convert_all_no_range_error:
  "\<forall>t\<in>set toks. stof t \<noteq> Out_of_range \<Longrightarrow> cc < 3 \<Longrightarrow>
   (\<exists>t. convert_all stof toks cc pts = Caught_invalid t) \<or>
   (\<exists>pts'. convert_all stof toks cc pts = Fell_through ((cc + length toks) mod 3) pts')"
proof (induction toks arbitrary: cc pts)
  case Nil
  then show ?case by simp
next
  case (Cons t toks)
  show ?case
  proof (cases "stof t")
    case (Value v)
    let ?pts2 = "assign_back cc v (if cc = 0 then pts @ [new_ParsedPoint] else pts)"
    have step: "convert_all stof (t # toks) cc pts = convert_all stof toks ((cc + 1) mod 3) ?pts2"
      using Value by simp
    have len: "((cc + 1) mod 3 + length toks) mod 3 = (cc + length (t # toks)) mod 3"
      by (simp add: mod_simps)
    have "(cc + 1) mod 3 < 3" by simp
    from Cons.IH[OF _ this, of ?pts2] Cons.prems(1)
    show ?thesis unfolding step len by simp
  next
    case Invalid_argument
    then show ?thesis by simp
  next
    case Out_of_range
    with Cons.prems show ?thesis by simp
  qed
qed

lemma store_triple:
  "convert_all stof (a # b # c # ts) 0 pts =
   (case (stof a, stof b, stof c) of (Value x, Value y, Value z) \<Rightarrow> convert_all stof ts 0 (pts @ [\<lparr>coordinates = (x, y, z)\<rparr>])
     | _ \<Rightarrow> convert_all stof (a # b # c # ts) 0 pts)"
  by (auto simp: assign_back_def set_coordinate_def new_ParsedPoint_def split: stof_result.splits)

lemma convert_all_triples:
  "map stof toks = map Value vs \<Longrightarrow> length vs = 3 * N \<Longrightarrow>
   convert_all stof toks 0 pts = Fell_through 0 (pts @ points_of vs) \<and> length (points_of vs) = N"
proof (induction N arbitrary: toks vs pts)
  case 0
  then show ?case by simp
next
  case (Suc N)
  from Suc.prems(2) obtain x y z vs' where vs: "vs = x # y # z # vs'" "length vs' = 3 * N"
    by (cases vs; cases "tl vs"; cases "tl (tl vs)") auto
  with Suc.prems(1) obtain a b c ts where toks: "toks = a # b # c # ts"
     "stof a = Value x" "stof b = Value y" "stof c = Value z" "map stof ts = map Value vs'"
    by (cases toks; cases "tl toks"; cases "tl (tl toks)") auto
  from Suc.IH[OF toks(5) vs(2)] show ?case
    using toks vs by (simp add: store_triple del: convert_all.simps)
qed

lemma convert_all_values:
  "\<forall>t\<in>set toks. is_Value (stof t) \<Longrightarrow> cc < 3 \<Longrightarrow>
   \<exists>pts'. convert_all stof toks cc pts = Fell_through ((cc + length toks) mod 3) pts'"
proof (induction toks arbitrary: cc pts)
  case Nil
  then show ?case by simp
next
  case (Cons t toks)
  from Cons.prems(1) obtain v where v: "stof t = Value v"
    by (cases "stof t") (auto simp: is_Value_def)
  let ?pts2 = "assign_back cc v (if cc = 0 then pts @ [new_ParsedPoint] else pts)"
  have step: "convert_all stof (t # toks) cc pts = convert_all stof toks ((cc + 1) mod 3) ?pts2"
    using v by simp
  have len: "((cc + 1) mod 3 + length toks) mod 3 = (cc + length (t # toks)) mod 3"
    by (simp add: mod_simps)
  have "(cc + 1) mod 3 < 3" by simp
  from Cons.IH[OF _ this, of ?pts2] Cons.prems(1)
  show ?case unfolding step len by simp
qed

section \<open>Walkers that always continue\<close>

lemma run_walker_continues:
  assumes "\<And>d w n. f d w n = Inr (True, g d w n)"
  shows "run_walker f ds w = Inr (True, foldl (\<lambda>w dn. g (fst dn) w (snd dn)) w ds)"
proof (induction ds arbitrary: w)
  case Nil
  show ?case by simp
next
  case (Cons dn ds)
  obtain d n where dn: "dn = (d, n)" by (cases dn)
  show ?case unfolding dn by (simp add: assms[of d w n] Cons.IH)
qed

lemma objects_step:
  "ObjectsWalker_for_each objects node =
     (True, if local_name (name node) \<in> set city_object_types then objects @ [node] else objects)"
  by (simp add: ObjectsWalker_for_each_def city_object_types_def Let_def)

lemma objects_fold:
  "foldl (\<lambda>w dn. if local_name (name (snd dn)) \<in> set city_object_types then w @ [snd dn] else w)
     objects ds =
   objects @ [n \<leftarrow> map snd ds. local_name (name n) \<in> set city_object_types]"
  by (induction ds arbitrary: objects) simp_all

lemma objects_run:
  "run_walker (\<lambda>d. returning ObjectsWalker_for_each) ds objects =
     Inr (True, objects @ [n \<leftarrow> map snd ds. local_name (name n) \<in> set city_object_types])"
proof -
  have "run_walker (\<lambda>d. returning ObjectsWalker_for_each) ds objects =
        Inr (True, foldl (\<lambda>w dn. (\<lambda>d w n. if local_name (name n) \<in> set city_object_types
                                   then w @ [n] else w) (fst dn) w (snd dn)) objects ds)"
    by (rule run_walker_continues) (simp add: returning_def objects_step)
  then show ?thesis by (simp add: objects_fold)
qed

lemma rings_fold:
  "foldl (\<lambda>w dn. snd (RingsWalker_for_each w (snd dn))) w ds =
     \<lparr>exteriorRing =
        (case [n \<leftarrow> map snd ds. name n = ''gml:exterior''] of
           [] \<Rightarrow> exteriorRing w
         | e # es \<Rightarrow> Some (last (e # es))),
      interiorRings = interiorRings w @ [n \<leftarrow> map snd ds. name n = ''gml:interior'']\<rparr>"
proof (induction ds arbitrary: w)
  case Nil
  show ?case by simp
next
  case (Cons dn ds)
  show ?case
    apply (simp only: foldl.simps Cons.IH)
    apply (simp add: RingsWalker_for_each_def split: list.splits)
    done
qed

lemma rings_run:
  "run_walker (\<lambda>d. returning RingsWalker_for_each) ds w =
     Inr (True,
       \<lparr>exteriorRing =
          (case [n \<leftarrow> map snd ds. name n = ''gml:exterior''] of
             [] \<Rightarrow> exteriorRing w
           | e # es \<Rightarrow> Some (last (e # es))),
        interiorRings = interiorRings w @ [n \<leftarrow> map snd ds. name n = ''gml:interior'']\<rparr>)"
proof -
  have "run_walker (\<lambda>d. returning RingsWalker_for_each) ds w =
        Inr (True, foldl (\<lambda>w dn. (\<lambda>d w n. snd (RingsWalker_for_each w n)) (fst dn) w (snd dn)) w ds)"
    by (rule run_walker_continues) (simp add: returning_def RingsWalker_for_each_def)
  then show ?thesis by (simp add: rings_fold)
qed

section \<open>The name after the first colon\<close>

lemma local_name_prefixed:
  "CHR '':'' \<notin> set prefix \<Longrightarrow> local_name (prefix @ CHR '':'' # rest) = rest"
proof -
  assume "CHR '':'' \<notin> set prefix"
  then have "dropWhile (\<lambda>c. c \<noteq> CHR '':'') (prefix @ CHR '':'' # rest) = CHR '':'' # rest"
    by (induction prefix) auto
  then show ?thesis by (simp add: local_name_def)
qed

lemma local_name_plain: "CHR '':'' \<notin> set nm \<Longrightarrow> local_name nm = nm"
  by (simp add: local_name_def)

section \<open>Children among the descendants\<close>

lemma preorder_depth: "dn \<in> set (preorder d n) \<Longrightarrow> d \<le> fst dn"
proof (induction d n arbitrary: dn rule: preorder.induct)
  case (1 d n v cs)
  from 1(2) consider "dn = (d, Node n v cs)"
    | c where "c \<in> set cs" "dn \<in> set (preorder (Suc d) c)"
    by auto
  then show ?case
  proof cases
    case 1
    then show ?thesis by simp
  next
    case 2
    with 1(1)[of c dn] show ?thesis by simp
  qed
qed

lemma preorder_top: "[dn \<leftarrow> preorder d n. fst dn = d] = [(d, n)]"
proof -
  obtain nm v cs where n: "n = Node nm v cs" by (cases n)
  have "[dn \<leftarrow> concat (map (preorder (Suc d)) cs). fst dn = d] = []"
    using preorder_depth[of _ "Suc d"] by (fastforce simp: filter_empty_conv)
  then show ?thesis by (simp add: n)
qed

lemma descendants_children:
  "map snd [dn \<leftarrow> descendants p. fst dn = 0] = children p"
proof -
  have "map snd [dn \<leftarrow> concat (map (preorder 0) cs). fst dn = 0] = cs" for cs
    by (induction cs) (simp_all add: preorder_top)
  then show ?thesis by (simp add: descendants_def)
qed

lemma filter_top_level:
  assumes "\<forall>dn\<in>set ds. P (snd dn) \<longrightarrow> fst dn = (0::nat)"
  shows "[n \<leftarrow> map snd ds. P n] = [n \<leftarrow> map snd [dn \<leftarrow> ds. fst dn = 0]. P n]"
  using assms by (induction ds) auto

section \<open>Lengths of the emitted buffers\<close>

lemma length_point_floats: "length (point_floats p) = 3"
  by (simp add: point_floats_def split: prod.splits)

lemma length_triangle_floats: "length (triangle_floats f) = 9"
  by (simp add: triangle_floats_def length_point_floats split: prod.splits)

lemma emit_kept_faces_filter:
  "emit_kept_faces fs triangles =
     triangles @ concat (map triangle_floats [f \<leftarrow> fs. info f = (True, False)])"
proof (induction fs arbitrary: triangles)
  case Nil
  show ?case by simp
next
  case (Cons f fs)
  show ?case by (cases "info f") (auto simp: Cons.IH)
qed

lemma length_concat_const:
  "(\<And>x. length (g x) = c) \<Longrightarrow> length (concat (map g xs)) = c * length xs"
  by (induction xs) simp_all

lemma dvd_emit: "9 dvd length triangles \<Longrightarrow> 9 dvd length (emit_kept_faces fs triangles)"
  by (simp add: emit_kept_faces_filter length_concat_const[of triangle_floats 9]
      length_triangle_floats)

lemma dvd_add_triangles:
  "9 dvd length triangles \<Longrightarrow>
   9 dvd length (addTrianglesFromTheConstrainedTriangulationOfPolygon cf polygon triangles)"
  by (simp add: addTrianglesFromTheConstrainedTriangulationOfPolygon_def dvd_emit)

lemma dvd_rebuild: "9 dvd length (rebuild_triangles cf polygons)"
proof -
  have "9 dvd length triangles \<Longrightarrow>
        9 dvd length (foldl (\<lambda>triangles polygon.
              addTrianglesFromTheConstrainedTriangulationOfPolygon cf polygon triangles)
           triangles polygons)" for triangles
    by (induction polygons arbitrary: triangles) (simp_all add: dvd_add_triangles)
  then show ?thesis by (simp add: rebuild_triangles_def)
qed

lemma dvd_concat: "(\<And>x. (k::nat) dvd length (g x)) \<Longrightarrow> k dvd length (concat (map g xs))"
  by (induction xs) simp_all

lemma dvd_ring_edges: "6 dvd length (ring_edges ring)"
proof -
  have "length (segment_floats s) = 6" for s :: "'a ParsedPoint \<times> 'a ParsedPoint"
    by (simp add: segment_floats_def length_point_floats)
  then show ?thesis
    by (simp add: ring_edges_def length_concat_const[of segment_floats 6])
qed

lemma dvd_polygon_edges: "6 dvd length (polygon_edges polygon)"
  unfolding polygon_edges_def by (rule dvd_concat) (rule dvd_ring_edges)

lemma dvd_regenerated_edges: "6 dvd length (edges (regenerateEdgesFor object))"
  by (simp add: regenerateEdgesFor_def dvd_concat dvd_polygon_edges)

lemma triangles_fold:
  "trianglesByType
     (foldl (\<lambda>ob entry. ob\<lparr>trianglesByType :=
                (trianglesByType ob)(fst entry \<mapsto> rebuild_triangles cf (snd entry))\<rparr>)
            ob entries) k =
   (case map_of (rev entries) k of
      None \<Rightarrow> trianglesByType ob k
    | Some polygons \<Rightarrow> Some (rebuild_triangles cf polygons))"
proof (induction entries arbitrary: ob)
  case Nil
  show ?case by simp
next
  case (Cons e entries)
  show ?case
    apply (simp only: foldl.simps Cons.IH)
    apply (cases e)
    apply (auto simp: map_of_append map_add_def split: option.splits)
    done
qed

lemma regenerated_triangles:
  "trianglesByType (regenerateTrianglesFor cf object) k =
   (case map_of (rev (object_polygonsByType object)) k of
      None \<Rightarrow> trianglesByType object k
    | Some polygons \<Rightarrow> Some (rebuild_triangles cf polygons))"
  by (simp add: regenerateTrianglesFor_def triangles_fold)

section \<open>Evaluated conversions and token lists\<close>

lemma std_stof_simple:
  "std_stof ''1.0'' = Value (Finite 1)"
  "std_stof ''2.0'' = Value (Finite 2)"
  "std_stof ''3.0'' = Value (Finite 3)"
  "std_stof ''4.0'' = Value (Finite 4)"
  "std_stof ''5.0'' = Value (Finite 5)"
  "std_stof ''6.0'' = Value (Finite 6)"
  "std_stof ''foo'' = Invalid_argument"
  "std_stof ''1e39'' = Out_of_range"
  by code_simp+

lemma tokens_scenario_D: "tokens ''1.0 foo 3.0'' = [''1.0''] @ ''foo'' # [''3.0'']"
  by code_simp

lemma tokens_scenario_C:
  "tokens ''1.0 2.0 3.0 4.0 5.0'' = [''1.0'', ''2.0'', ''3.0'', ''4.0'', ''5.0'']"
  by code_simp

lemma tokens_two_triples:
  "tokens ''1.0 2.0 3.0 4.0 5.0 6.0'' = [''1.0'', ''2.0'', ''3.0'', ''4.0'', ''5.0'', ''6.0'']"
  by code_simp

lemma tokens_out_of_range: "tokens ''1.0 1e39 3.0'' = [''1.0''] @ ''1e39'' # [''3.0'']"
  by code_simp

lemma example_polygon_descendants:
  "descendants example_polygon =
     [(0, ring_of ''gml:interior'' ''1 1 0 2 1 0 2 2 0''),
      (1, Node ''gml:LinearRing'' [] [Node ''gml:posList'' ''1 1 0 2 1 0 2 2 0'' []]),
      (2, Node ''gml:posList'' ''1 1 0 2 1 0 2 2 0'' []),
      (0, ring_of ''gml:exterior'' ''0 0 0 4 0 0 4 4 0 0 4 0''),
      (1, Node ''gml:LinearRing'' [] [Node ''gml:posList'' ''0 0 0 4 0 0 4 4 0 0 4 0'' []]),
      (2, Node ''gml:posList'' ''0 0 0 4 0 0 4 4 0 0 4 0'' []),
      (0, ring_of ''gml:interior'' ''3 3 0 3 2 0 2 3 0''),
      (1, Node ''gml:LinearRing'' [] [Node ''gml:posList'' ''3 3 0 3 2 0 2 3 0'' []]),
      (2, Node ''gml:posList'' ''3 3 0 3 2 0 2 3 0'' [])]"
  by (simp add: example_polygon_def descendants_def ring_of_def)

lemma example_regenerated:
  "map (\<lambda>object. (trianglesByType object ''RoofSurface'', edges object))
     (regenerateGeometries example_faces [example_object]) =
   [(Some [0, 0, 0, 1, 0, 0, 1, 1, 0, 0, 0, 0, 1, 1, 0, 0, 1, 0],
     [0, 0, 0, 1, 0, 0, 1, 0, 0, 1, 1, 0, 1, 1, 0, 0, 1, 0, 0, 1, 0, 0, 0, 0])]"
  by (simp add: regenerateGeometries_def regenerateEdgesFor_def regenerateTrianglesFor_def
      rebuild_triangles_def addTrianglesFromTheConstrainedTriangulationOfPolygon_def
      example_object_def example_faces_def unit_square_def example_corner_def
      polygon_edges_def ring_edges_def segment_floats_def point_floats_def triangle_floats_def)

section \<open>Point extraction\<close>

text \<open>
  C1. In a \<^verbatim>\<open>gml:pos\<close> or \<^verbatim>\<open>gml:posList\<close> element, let \<open>t\<close> be the first token that does
  not convert, and let it fail with \<^verbatim>\<open>std::invalid_argument\<close>. Then \<^verbatim>\<open>for_each\<close> stops
  reading that element (the tokens \<open>post\<close> after \<open>t\<close> play no part), leaves the
  walker with no points at all, whatever it had collected before, writes exactly one
  line naming \<open>t\<close>, and returns \<^verbatim>\<open>true\<close> without throwing: the traversal goes on with
  the nodes that follow.
\<close>

theorem invalid_token_discards_points:
  assumes "name node = ''gml:pos'' \<or> name node = ''gml:posList''"
    and "tokens (child_value node) = pre @ t # post"
    and "\<forall>s\<in>set pre. is_Value (stof s)"
    and "stof t = Invalid_argument"
  shows "PointsWalker_for_each stof (pts, cout) node = Inr (True, [], cout @ [invalid_point_line t])
       \<and> run_walker (\<lambda>d. PointsWalker_for_each stof) ((d, node) # rest) (pts, cout) =
           run_walker (\<lambda>d. PointsWalker_for_each stof) rest ([], cout @ [invalid_point_line t])"
proof -
  have "convert_all stof (tokens (child_value node)) 0 pts = Caught_invalid t"
    using assms(2-4) by (simp add: convert_all_invalid)
  then have "PointsWalker_for_each stof (pts, cout) node =
             Inr (True, [], cout @ [invalid_point_line t])"
    using assms(1) by (simp add: for_each_tokens)
  then show ?thesis by simp
qed

text \<open>
  Scenario D: the text \<open>1.0 foo 3.0\<close> yields no points and one line; a position
  list that follows it in the same traversal is read as usual.
\<close>

theorem invalid_token_scenario_D:
  "PointsWalker_for_each std_stof ([], []) (Node ''gml:posList'' ''1.0 foo 3.0'' []) =
     Inr (True, [], [''Invalid point: foo. Skipping...''])
   \<and> run_walker (\<lambda>d. PointsWalker_for_each std_stof)
       [(2, Node ''gml:posList'' ''1.0 foo 3.0'' []), (2, Node ''gml:posList'' ''4.0 5.0 6.0'' [])]
       ([], []) =
     Inr (True, [\<lparr>coordinates = (Finite 4, Finite 5, Finite 6)\<rparr>],
          [''Invalid point: foo. Skipping...''])"
proof -
  let ?bad = "Node ''gml:posList'' ''1.0 foo 3.0'' []"
  let ?good = "Node ''gml:posList'' ''4.0 5.0 6.0'' []"
  have n: "name ?bad = ''gml:pos'' \<or> name ?bad = ''gml:posList''" by simp
  have t: "tokens (child_value ?bad) = [''1.0''] @ ''foo'' # [''3.0'']"
    by (simp add: tokens_scenario_D)
  have p: "\<forall>s\<in>set [''1.0'']. is_Value (std_stof s)"
    by (simp add: std_stof_simple is_Value_def)
  have rest: "run_walker (\<lambda>d. PointsWalker_for_each std_stof) [(2, ?good)]
                ([], [''Invalid point: foo. Skipping...'']) =
              Inr (True, [\<lparr>coordinates = (Finite 4, Finite 5, Finite 6)\<rparr>],
                   [''Invalid point: foo. Skipping...''])"
    by code_simp
  from invalid_token_discards_points[OF n t p std_stof_simple(7), of "[]" "[]" 2 "[(2, ?good)]"] rest
  show ?thesis by (simp add: invalid_point_line_def)
qed

text \<open>
  A ring is not given up with the element that holds the bad token: \<^verbatim>\<open>for_each\<close>
  returns \<^verbatim>\<open>true\<close>, so the position elements that follow in the same ring are read
  and their points stay. Of the four positions \<open>1 2 3\<close>, \<open>4 foo 6\<close>, \<open>7 8 9\<close>,
  \<open>10 11 12\<close> the walker ends with the last two points. And a token out of float
  range that comes before the bad token throws before the bad token is reached.
\<close>

theorem later_positions_refill_ring:
  "PointsWalker_traverse std_stof
     (Node ''gml:LinearRing'' []
        [Node ''gml:pos'' ''1 2 3'' [], Node ''gml:pos'' ''4 foo 6'' [],
         Node ''gml:pos'' ''7 8 9'' [], Node ''gml:pos'' ''10 11 12'' []])
     ([], []) =
   Inr (True,
        [\<lparr>coordinates = (Finite 7, Finite 8, Finite 9)\<rparr>,
         \<lparr>coordinates = (Finite 10, Finite 11, Finite 12)\<rparr>],
        [''Invalid point: foo. Skipping...''])
   \<and> PointsWalker_for_each std_stof ([], []) (Node ''gml:posList'' ''1e39 foo 3.0'' []) =
       Inl Uncaught_out_of_range"
  by code_simp

text \<open>
  C2. In a \<^verbatim>\<open>gml:pos\<close> or \<^verbatim>\<open>gml:posList\<close> element whose tokens convert to the values
  \<open>vs\<close>, \<open>3 * N\<close> of them, \<^verbatim>\<open>for_each\<close> appends exactly \<open>N\<close> points to the walker's
  points, each made of three consecutive values in order, and prints nothing (a
  walker that starts empty ends with exactly \<open>N\<close> points). When the number of tokens
  is not a multiple of \<open>3\<close> and no token is out of the range of a float, the walker
  is left with no points and one more line when \<^verbatim>\<open>for_each\<close> returns; when moreover
  every token converts, the line is the one about the number of coordinates.
\<close>

theorem triples_yield_points_wrong_count_discards:
  assumes "name node = ''gml:pos'' \<or> name node = ''gml:posList''"
    and "tokens (child_value node) = toks"
  shows "(map stof toks = map Value vs \<and> length vs = 3 * N \<longrightarrow>
            PointsWalker_for_each stof (pts, cout) node = Inr (True, pts @ points_of vs, cout)
            \<and> length (points_of vs) = N)
       \<and> ((\<forall>t\<in>set toks. stof t \<noteq> Out_of_range) \<and> length toks mod 3 \<noteq> 0 \<longrightarrow>
            (\<exists>line. PointsWalker_for_each stof (pts, cout) node = Inr (True, [], cout @ [line])))
       \<and> ((\<forall>t\<in>set toks. is_Value (stof t)) \<and> length toks mod 3 \<noteq> 0 \<longrightarrow>
            PointsWalker_for_each stof (pts, cout) node = Inr (True, [], cout @ [wrong_number_line]))"
proof (intro conjI impI)
  assume a: "map stof toks = map Value vs \<and> length vs = 3 * N"
  then have "convert_all stof toks 0 pts = Fell_through 0 (pts @ points_of vs) \<and>
             length (points_of vs) = N"
    using convert_all_triples[of stof toks vs N pts] by simp
  then show "PointsWalker_for_each stof (pts, cout) node = Inr (True, pts @ points_of vs, cout)"
    and "length (points_of vs) = N"
    using assms by (simp_all add: for_each_tokens)
next
  assume a: "(\<forall>t\<in>set toks. stof t \<noteq> Out_of_range) \<and> length toks mod 3 \<noteq> 0"
  then have "(\<exists>t. convert_all stof toks 0 pts = Caught_invalid t) \<or>
             (\<exists>pts'. convert_all stof toks 0 pts = Fell_through ((0 + length toks) mod 3) pts')"
    using convert_all_no_range_error[of toks stof 0 pts] by simp
  then show "\<exists>line. PointsWalker_for_each stof (pts, cout) node = Inr (True, [], cout @ [line])"
    using assms a by (auto simp: for_each_tokens)
next
  assume a: "(\<forall>t\<in>set toks. is_Value (stof t)) \<and> length toks mod 3 \<noteq> 0"
  then have "\<exists>pts'. convert_all stof toks 0 pts = Fell_through ((0 + length toks) mod 3) pts'"
    using convert_all_values[of toks stof 0 pts] by simp
  then show "PointsWalker_for_each stof (pts, cout) node = Inr (True, [], cout @ [wrong_number_line])"
    using assms a by (auto simp: for_each_tokens)
qed

text \<open>
  Two triples give two points; Scenario C, the five tokens \<open>1.0 2.0 3.0 4.0 5.0\<close>,
  gives none.
\<close>

theorem two_triples_and_scenario_C:
  "PointsWalker_for_each std_stof ([], []) (Node ''gml:posList'' ''1.0 2.0 3.0 4.0 5.0 6.0'' []) =
     Inr (True, [\<lparr>coordinates = (Finite 1, Finite 2, Finite 3)\<rparr>,
                 \<lparr>coordinates = (Finite 4, Finite 5, Finite 6)\<rparr>], [])
   \<and> PointsWalker_for_each std_stof ([], []) (Node ''gml:posList'' ''1.0 2.0 3.0 4.0 5.0'' []) =
     Inr (True, [], [''Wrong number of coordinates: not divisible by 3''])"
proof -
  let ?six = "Node ''gml:posList'' ''1.0 2.0 3.0 4.0 5.0 6.0'' []"
  let ?five = "Node ''gml:posList'' ''1.0 2.0 3.0 4.0 5.0'' []"
  let ?t6 = "[''1.0'', ''2.0'', ''3.0'', ''4.0'', ''5.0'', ''6.0'']"
  let ?t5 = "[''1.0'', ''2.0'', ''3.0'', ''4.0'', ''5.0'']"
  let ?vs = "[Finite 1, Finite 2, Finite 3, Finite 4, Finite 5, Finite 6]"
  have n6: "name ?six = ''gml:pos'' \<or> name ?six = ''gml:posList''" by simp
  have n5: "name ?five = ''gml:pos'' \<or> name ?five = ''gml:posList''" by simp
  have t6: "tokens (child_value ?six) = ?t6" by (simp add: tokens_two_triples)
  have t5: "tokens (child_value ?five) = ?t5" by (simp add: tokens_scenario_C)
  have v6: "map std_stof ?t6 = map Value ?vs \<and> length ?vs = 3 * 2"
    by (simp add: std_stof_simple)
  have v5: "(\<forall>t\<in>set ?t5. is_Value (std_stof t)) \<and> length ?t5 mod 3 \<noteq> 0"
    by (simp add: std_stof_simple is_Value_def)
  from triples_yield_points_wrong_count_discards[OF n6 t6, of std_stof ?vs 2 "[]" "[]"] v6
  have six: "PointsWalker_for_each std_stof ([], []) ?six = Inr (True, [] @ points_of ?vs, [])"
    by blast
  from triples_yield_points_wrong_count_discards[OF n5 t5, of std_stof ?vs 2 "[]" "[]"] v5
  have five: "PointsWalker_for_each std_stof ([], []) ?five = Inr (True, [], [] @ [wrong_number_line])"
    by blast
  from six five show ?thesis by (simp add: wrong_number_line_def)
qed

text \<open>
  Without the condition on the range, a token count that is not a multiple of \<open>3\<close>
  does not give an empty ring: of the five tokens \<open>1.0 2.0 3.0 4.0 1e39\<close> the last
  one throws, nothing is cleared and nothing is printed. And the ring is empty only
  when \<^verbatim>\<open>for_each\<close> returns from that element: after the positions \<open>1 2\<close> and
  \<open>3 4 5\<close> the walker holds one point.
\<close>

theorem wrong_count_with_range_error:
  "PointsWalker_for_each std_stof ([], []) (Node ''gml:posList'' ''1.0 2.0 3.0 4.0 1e39'' []) =
     Inl Uncaught_out_of_range
   \<and> PointsWalker_traverse std_stof
       (Node ''gml:LinearRing'' [] [Node ''gml:pos'' ''1 2'' [], Node ''gml:pos'' ''3 4 5'' []])
       ([], []) =
     Inr (True, [\<lparr>coordinates = (Finite 3, Finite 4, Finite 5)\<rparr>],
          [''Wrong number of coordinates: not divisible by 3''])"
  by code_simp

text \<open>
  C9. \<^verbatim>\<open>PointsWalker::for_each\<close> compares the full element name: an element named
  anything but \<^verbatim>\<open>gml:pos\<close> or \<^verbatim>\<open>gml:posList\<close> leaves the points and the output as
  they are, whatever text it holds. This includes a position list without a prefix
  or under another prefix, although its local name is the same.
\<close>

theorem other_names_contribute_nothing:
  "name node \<noteq> ''gml:pos'' \<Longrightarrow> name node \<noteq> ''gml:posList'' \<Longrightarrow>
   PointsWalker_for_each stof (pts, cout) node = Inr (True, pts, cout)"
  by (simp add: PointsWalker_for_each_def)

theorem other_prefix_witness:
  "PointsWalker_for_each std_stof ([], []) (Node ''posList'' ''1.0 2.0 3.0'' []) = Inr (True, [], [])
   \<and> PointsWalker_for_each std_stof ([], []) (Node ''citygml:posList'' ''1.0 2.0 3.0'' []) = Inr (True, [], [])
   \<and> PointsWalker_for_each std_stof ([], []) (Node ''gml:posList'' ''1.0 2.0 3.0'' []) =
       Inr (True, [\<lparr>coordinates = (Finite 1, Finite 2, Finite 3)\<rparr>], [])
   \<and> local_name ''citygml:posList'' = local_name ''gml:posList''"
proof -
  have a: "PointsWalker_for_each std_stof ([], []) (Node ''posList'' ''1.0 2.0 3.0'' []) = Inr (True, [], [])"
    by (rule other_names_contribute_nothing) simp_all
  have b: "PointsWalker_for_each std_stof ([], []) (Node ''citygml:posList'' ''1.0 2.0 3.0'' []) = Inr (True, [], [])"
    by (rule other_names_contribute_nothing) simp_all
  have c: "PointsWalker_for_each std_stof ([], []) (Node ''gml:posList'' ''1.0 2.0 3.0'' []) =
       Inr (True, [\<lparr>coordinates = (Finite 1, Finite 2, Finite 3)\<rparr>], [])"
    by code_simp
  have d: "local_name ''citygml:posList'' = local_name ''gml:posList''"
    by (simp add: local_name_def)
  from a b c d show ?thesis by simp
qed

text \<open>
  C10. The \<^verbatim>\<open>catch\<close> clause names \<^verbatim>\<open>std::invalid_argument\<close> only. When the first
  token that does not convert is out of the range of a float, \<^verbatim>\<open>for_each\<close> does not
  return: no line is printed, the points are not cleared, and the exception leaves
  the traversal as well, so the nodes that follow are not visited. The token
  \<open>1e39\<close> is such a token.
\<close>

theorem out_of_range_token_escapes:
  assumes "name node = ''gml:pos'' \<or> name node = ''gml:posList''"
    and "tokens (child_value node) = pre @ t # post"
    and "\<forall>s\<in>set pre. is_Value (stof s)"
    and "stof t = Out_of_range"
  shows "PointsWalker_for_each stof (pts, cout) node = Inl Uncaught_out_of_range
       \<and> run_walker (\<lambda>d. PointsWalker_for_each stof) ((d, node) # rest) (pts, cout) =
           Inl Uncaught_out_of_range"
proof -
  have "convert_all stof (tokens (child_value node)) 0 pts = Thrown Uncaught_out_of_range"
    using assms(2-4) by (simp add: convert_all_out_of_range)
  then have "PointsWalker_for_each stof (pts, cout) node = Inl Uncaught_out_of_range"
    using assms(1) by (simp add: for_each_tokens)
  then show ?thesis by simp
qed

theorem out_of_range_witness:
  "std_stof ''1e39'' = Out_of_range
   \<and> PointsWalker_for_each std_stof ([], []) (Node ''gml:posList'' ''1.0 1e39 3.0'' []) =
       Inl Uncaught_out_of_range
   \<and> run_walker (\<lambda>d. PointsWalker_for_each std_stof)
       [(2, Node ''gml:posList'' ''1.0 1e39 3.0'' []), (2, Node ''gml:posList'' ''4.0 5.0 6.0'' [])]
       ([], []) = Inl Uncaught_out_of_range"
proof -
  let ?bad = "Node ''gml:posList'' ''1.0 1e39 3.0'' []"
  have n: "name ?bad = ''gml:pos'' \<or> name ?bad = ''gml:posList''" by simp
  have t: "tokens (child_value ?bad) = [''1.0''] @ ''1e39'' # [''3.0'']"
    by (simp add: tokens_out_of_range)
  have p: "\<forall>s\<in>set [''1.0'']. is_Value (std_stof s)"
    by (simp add: std_stof_simple is_Value_def)
  from out_of_range_token_escapes[OF n t p std_stof_simple(8), of "[]" "[]" 2
         "[(2, Node ''gml:posList'' ''4.0 5.0 6.0'' [])]"]
  show ?thesis by (simp add: std_stof_simple)
qed

section \<open>Discovery of objects, surface types and rings\<close>

text \<open>
  C6. \<^verbatim>\<open>ObjectsWalker::for_each\<close> strips the name up to its first colon and appends
  the node to \<^verbatim>\<open>objects\<close> exactly when what remains is one of the sixteen city-object
  type names; it always returns \<^verbatim>\<open>true\<close>. What remains of a name \<open>prefix:rest\<close> whose
  prefix has no colon is \<open>rest\<close>, and a name without a colon is taken as it is: so
  an element \<open>prefix:rest\<close> is collected exactly when \<open>rest\<close> is in the list, and an
  element without a prefix exactly when its name is. A traversal collects, in
  document order, exactly the elements below the traversed node whose local name is
  in the list (every element of a document is below its document node), and no
  other.
\<close>

theorem objects_collected_iff_whitelisted:
  "ObjectsWalker_traverse origin objects =
     Inr (True, objects @ [n \<leftarrow> map snd (descendants origin).
                            local_name (name n) \<in> set city_object_types])
   \<and> ObjectsWalker_for_each objects node =
       (True, if local_name (name node) \<in> set city_object_types then objects @ [node]
              else objects)
   \<and> (CHR '':'' \<notin> set prefix \<longrightarrow> local_name (prefix @ CHR '':'' # rest) = rest)
   \<and> (CHR '':'' \<notin> set nm \<longrightarrow> local_name nm = nm)
   \<and> (CHR '':'' \<notin> set prefix \<longrightarrow>
        ObjectsWalker_for_each objects (Node (prefix @ CHR '':'' # rest) v cs) =
          (True, if rest \<in> set city_object_types
                 then objects @ [Node (prefix @ CHR '':'' # rest) v cs] else objects))
   \<and> (CHR '':'' \<notin> set nm \<longrightarrow>
        ObjectsWalker_for_each objects (Node nm v cs) =
          (True, if nm \<in> set city_object_types then objects @ [Node nm v cs] else objects))"
  using objects_run[of "descendants origin" objects]
  by (simp add: ObjectsWalker_traverse_def traverse_def objects_step local_name_prefixed
      local_name_plain del: set_simps)

text \<open>
  \<open>bldg:Building\<close> and \<open>Building\<close> are collected; \<open>bldg:Room\<close> is not, and neither
  is \<open>a:bldg:Building\<close>, of which only the part before the first colon is
  stripped.
\<close>

theorem prefixed_objects_collected:
  "ObjectsWalker_for_each [] (Node ''bldg:Building'' [] []) = (True, [Node ''bldg:Building'' [] []])
   \<and> ObjectsWalker_for_each [] (Node ''Building'' [] []) = (True, [Node ''Building'' [] []])
   \<and> ObjectsWalker_for_each [] (Node ''bldg:Room'' [] []) = (True, [])
   \<and> ObjectsWalker_for_each [] (Node ''a:bldg:Building'' [] []) = (True, [])
   \<and> local_name ''bldg:Building'' = ''Building''
   \<and> local_name ''a:bldg:Building'' = ''bldg:Building''"
proof -
  have p: "CHR '':'' \<notin> set ''bldg''" by simp
  have q: "CHR '':'' \<notin> set ''Building''" by simp
  have a: "CHR '':'' \<notin> set ''a''" by simp
  note t = objects_collected_iff_whitelisted
  have 1: "ObjectsWalker_for_each [] (Node ''bldg:Building'' [] []) = (True, [Node ''bldg:Building'' [] []])"
    using t[of _ "[]" _ "''bldg''" "''Building''" _ "[]" "[]", THEN conjunct2, THEN conjunct2,
        THEN conjunct2, THEN conjunct2, THEN conjunct1, rule_format, OF p]
    by (simp add: city_object_types_def)
  have 2: "ObjectsWalker_for_each [] (Node ''Building'' [] []) = (True, [Node ''Building'' [] []])"
    using t[of _ "[]" _ _ _ "''Building''" "[]" "[]", THEN conjunct2, THEN conjunct2,
        THEN conjunct2, THEN conjunct2, THEN conjunct2, rule_format, OF q]
    by (simp add: city_object_types_def)
  have 3: "ObjectsWalker_for_each [] (Node ''bldg:Room'' [] []) = (True, [])"
    using t[of _ "[]" _ "''bldg''" "''Room''" _ "[]" "[]", THEN conjunct2, THEN conjunct2,
        THEN conjunct2, THEN conjunct2, THEN conjunct1, rule_format, OF p]
    by (simp add: city_object_types_def)
  have 4: "ObjectsWalker_for_each [] (Node ''a:bldg:Building'' [] []) = (True, [])"
    using t[of _ "[]" _ "''a''" "''bldg:Building''" _ "[]" "[]", THEN conjunct2, THEN conjunct2,
        THEN conjunct2, THEN conjunct2, THEN conjunct1, rule_format, OF a]
    by (simp add: city_object_types_def)
  have 5: "local_name ''bldg:Building'' = ''Building''"
    using t[of _ _ _ "''bldg''" "''Building''", THEN conjunct2, THEN conjunct2,
        THEN conjunct1, rule_format, OF p]
    by simp
  have 6: "local_name ''a:bldg:Building'' = ''bldg:Building''"
    using t[of _ _ _ "''a''" "''bldg:Building''", THEN conjunct2, THEN conjunct2,
        THEN conjunct1, rule_format, OF a]
    by simp
  from 1 2 3 4 5 6 show ?thesis by blast
qed

text \<open>
  C3. One step of \<^verbatim>\<open>PolygonsWalker::for_each\<close> at depth \<open>d\<close>. The context in which
  the node is classified, \<open>active_type d w\<close>, is undefined exactly when no type was
  active or \<open>d\<close> is at most the depth at which the active type was entered, and is
  the active type exactly when the node is deeper than that. The check comes first:
  an element that is not a surface type leaves the walker in that context, and a
  surface-type element sets its own name and depth whatever the context was, so
  that a sibling of the previous surface element, at the same depth, is the new
  defined type (had the check come second, it would have cleared the type it had
  just set).
\<close>

theorem polygon_context_step:
  "inDefinedType (snd (PolygonsWalker_for_each d w node)) =
     (if local_name (name node) \<in> set surface_types then local_name (name node)
      else active_type d w)
   \<and> depthToStop (snd (PolygonsWalker_for_each d w node)) =
     (if local_name (name node) \<in> set surface_types then d else depthToStop w)
   \<and> (active_type d w = [] \<longleftrightarrow> inDefinedType w = [] \<or> d \<le> depthToStop w)
   \<and> (active_type d w = inDefinedType w \<longleftrightarrow> inDefinedType w = [] \<or> depthToStop w < d)
   \<and> fst (PolygonsWalker_for_each d w node) = True"
  by (auto simp: PolygonsWalker_for_each_def surface_types_def active_type_def Let_def)

text \<open>
  Two sibling surface elements, each with one geometry, and a polygon after them:
  each geometry is filed under its own surface type, the last one under the
  undefined type.
\<close>

lemma sibling_surfaces_example:
  "\<exists>w. traverse (\<lambda>d. returning (PolygonsWalker_for_each d)) example_building (new_PolygonsWalker 7) = Inr (True, w)
   \<and> map (polygonsByType w) [''RoofSurface'', ''GroundSurface'', [], ''Door''] =
     [Some [Node ''gml:Polygon'' ''r'' []], Some [Node ''gml:Triangle'' ''g'' []], Some [Node ''gml:Polygon'' ''u'' []], None]"
  by (simp add: traverse_def descendants_def example_building_def returning_def
       PolygonsWalker_for_each_def local_name_def new_PolygonsWalker_def push_back_at_def)

text \<open>
  C5. An element whose local name is \<open>Door\<close>, \<open>GroundSurface\<close>, \<open>RoofSurface\<close> or
  \<open>Window\<close> makes that name the defined type and records the depth; nothing is
  filed. An element whose local name is \<open>Polygon\<close> or \<open>Triangle\<close> is appended to the
  list under the active type (a new list when the key is new), which is the empty
  string when no defined type is active.
\<close>

theorem polygon_filing:
  "(local_name (name node) \<in> set surface_types \<longrightarrow>
      PolygonsWalker_for_each d w node =
        (True, w\<lparr>inDefinedType := local_name (name node), depthToStop := d\<rparr>))
   \<and> (local_name (name node) = ''Polygon'' \<or> local_name (name node) = ''Triangle'' \<longrightarrow>
      PolygonsWalker_for_each d w node =
        (True, w\<lparr>inDefinedType := active_type d w,
                 polygonsByType := (polygonsByType w)
                   (active_type d w \<mapsto> filed (polygonsByType w) (active_type d w) @ [node])\<rparr>))
   \<and> (inDefinedType w = [] \<longrightarrow> active_type d w = [])"
  by (auto simp: PolygonsWalker_for_each_def surface_types_def active_type_def Let_def
      push_back_at_def filed_def)

theorem polygon_filing_example:
  "PolygonsWalker_for_each 3 (new_PolygonsWalker 0) (Node ''bldg:RoofSurface'' [] []) =
     (True, \<lparr>polygonsByType = Map.empty, inDefinedType = ''RoofSurface'', depthToStop = 3\<rparr>)
   \<and> polygonsByType (snd (PolygonsWalker_for_each 5
         \<lparr>polygonsByType = Map.empty, inDefinedType = ''RoofSurface'', depthToStop = 3\<rparr>
         (Node ''gml:Polygon'' [] []))) ''RoofSurface'' = Some [Node ''gml:Polygon'' [] []]
   \<and> polygonsByType (snd (PolygonsWalker_for_each 3
         \<lparr>polygonsByType = Map.empty, inDefinedType = ''RoofSurface'', depthToStop = 3\<rparr>
         (Node ''gml:Triangle'' [] []))) [] = Some [Node ''gml:Triangle'' [] []]
   \<and> polygonsByType (snd (PolygonsWalker_for_each 2 (new_PolygonsWalker 0)
         (Node ''gml:Polygon'' [] []))) [] = Some [Node ''gml:Polygon'' [] []]"
proof -
  let ?roof = "Node ''bldg:RoofSurface'' [] []"
  let ?poly = "Node ''gml:Polygon'' [] []"
  let ?tri = "Node ''gml:Triangle'' [] []"
  let ?w1 = "\<lparr>polygonsByType = Map.empty, inDefinedType = ''RoofSurface'', depthToStop = 3\<rparr>"
  have r: "local_name (name ?roof) \<in> set surface_types"
    by (simp add: local_name_def surface_types_def)
  have p: "local_name (name ?poly) = ''Polygon'' \<or> local_name (name ?poly) = ''Triangle''"
    by (simp add: local_name_def)
  have t: "local_name (name ?tri) = ''Polygon'' \<or> local_name (name ?tri) = ''Triangle''"
    by (simp add: local_name_def)
  have a: "PolygonsWalker_for_each 3 (new_PolygonsWalker 0) ?roof =
           (True, \<lparr>polygonsByType = Map.empty, inDefinedType = ''RoofSurface'', depthToStop = 3\<rparr>)"
    using polygon_filing[of ?roof 3 "new_PolygonsWalker 0", THEN conjunct1, rule_format, OF r]
    by (simp add: new_PolygonsWalker_def local_name_def)
  have b: "polygonsByType (snd (PolygonsWalker_for_each 5 ?w1 ?poly)) ''RoofSurface'' = Some [?poly]"
    using polygon_filing[of ?poly 5 ?w1, THEN conjunct2, THEN conjunct1, rule_format, OF p]
    by (simp add: active_type_def filed_def)
  have c: "polygonsByType (snd (PolygonsWalker_for_each 3 ?w1 ?tri)) [] = Some [?tri]"
    using polygon_filing[of ?tri 3 ?w1, THEN conjunct2, THEN conjunct1, rule_format, OF t]
    by (simp add: active_type_def filed_def)
  have d: "polygonsByType (snd (PolygonsWalker_for_each 2 (new_PolygonsWalker 0) ?poly)) [] = Some [?poly]"
    using polygon_filing[of ?poly 2 "new_PolygonsWalker 0", THEN conjunct2, THEN conjunct1, rule_format, OF p]
    by (simp add: active_type_def filed_def new_PolygonsWalker_def)
  from a b c d show ?thesis by simp
qed

text \<open>
  C7. \<^verbatim>\<open>RingsWalker::for_each\<close> compares the full names \<^verbatim>\<open>gml:exterior\<close> and
  \<^verbatim>\<open>gml:interior\<close>, and the traversal visits every element below the polygon, at any
  depth. For every polygon the exterior ring is the last \<^verbatim>\<open>gml:exterior\<close> element below
  it (none when there is none, the single one when there is exactly one), and the
  interior rings are all \<^verbatim>\<open>gml:interior\<close> elements below it, in document order; no
  other node is taken. When all the \<^verbatim>\<open>gml:exterior\<close> and \<^verbatim>\<open>gml:interior\<close> elements below
  the polygon are its children, as in GML, the rings are the \<^verbatim>\<open>gml:exterior\<close> child and
  the \<^verbatim>\<open>gml:interior\<close> children.
\<close>

theorem rings_of_polygon:
  "RingsWalker_traverse polygon new_RingsWalker =
     Inr (True,
       \<lparr>exteriorRing =
          (case [n \<leftarrow> map snd (descendants polygon). name n = ''gml:exterior''] of
             [] \<Rightarrow> None
           | e # es \<Rightarrow> Some (last (e # es))),
        interiorRings = [n \<leftarrow> map snd (descendants polygon). name n = ''gml:interior'']\<rparr>)
   \<and> ([n \<leftarrow> map snd (descendants polygon). name n = ''gml:exterior''] = [e] \<longrightarrow>
        RingsWalker_traverse polygon new_RingsWalker =
          Inr (True, \<lparr>exteriorRing = Some e,
                      interiorRings =
                        [n \<leftarrow> map snd (descendants polygon). name n = ''gml:interior'']\<rparr>))
   \<and> ((\<forall>dn\<in>set (descendants polygon).
          name (snd dn) = ''gml:exterior'' \<or> name (snd dn) = ''gml:interior'' \<longrightarrow> fst dn = 0) \<longrightarrow>
        [n \<leftarrow> map snd (descendants polygon). name n = ''gml:exterior''] =
          [n \<leftarrow> children polygon. name n = ''gml:exterior'']
        \<and> [n \<leftarrow> map snd (descendants polygon). name n = ''gml:interior''] =
          [n \<leftarrow> children polygon. name n = ''gml:interior''])"
proof (intro conjI impI)
  show full: "RingsWalker_traverse polygon new_RingsWalker =
     Inr (True,
       \<lparr>exteriorRing =
          (case [n \<leftarrow> map snd (descendants polygon). name n = ''gml:exterior''] of
             [] \<Rightarrow> None
           | e # es \<Rightarrow> Some (last (e # es))),
        interiorRings = [n \<leftarrow> map snd (descendants polygon). name n = ''gml:interior'']\<rparr>)"
    by (simp add: RingsWalker_traverse_def traverse_def rings_run new_RingsWalker_def
        split: list.splits)
  show "RingsWalker_traverse polygon new_RingsWalker =
          Inr (True, \<lparr>exteriorRing = Some e,
                      interiorRings =
                        [n \<leftarrow> map snd (descendants polygon). name n = ''gml:interior'']\<rparr>)"
    if "[n \<leftarrow> map snd (descendants polygon). name n = ''gml:exterior''] = [e]"
    using that by (simp add: full)
next
  assume top: "\<forall>dn\<in>set (descendants polygon).
              name (snd dn) = ''gml:exterior'' \<or> name (snd dn) = ''gml:interior'' \<longrightarrow> fst dn = 0"
  show "[n \<leftarrow> map snd (descendants polygon). name n = ''gml:exterior''] =
        [n \<leftarrow> children polygon. name n = ''gml:exterior'']"
    using filter_top_level[of "descendants polygon" "\<lambda>n. name n = ''gml:exterior''"] top
    by (simp add: descendants_children)
  show "[n \<leftarrow> map snd (descendants polygon). name n = ''gml:interior''] =
        [n \<leftarrow> children polygon. name n = ''gml:interior'']"
    using filter_top_level[of "descendants polygon" "\<lambda>n. name n = ''gml:interior''"] top
    by (simp add: descendants_children)
qed

theorem rings_of_example_polygon:
  "RingsWalker_traverse example_polygon new_RingsWalker =
     Inr (True, \<lparr>exteriorRing = Some (ring_of ''gml:exterior'' ''0 0 0 4 0 0 4 4 0 0 4 0''),
                 interiorRings = [ring_of ''gml:interior'' ''1 1 0 2 1 0 2 2 0'',
                                  ring_of ''gml:interior'' ''3 3 0 3 2 0 2 3 0'']\<rparr>)
   \<and> [n \<leftarrow> children example_polygon. name n = ''gml:exterior''] =
       [ring_of ''gml:exterior'' ''0 0 0 4 0 0 4 4 0 0 4 0'']
   \<and> [n \<leftarrow> children example_polygon. name n = ''gml:interior''] =
       [ring_of ''gml:interior'' ''1 1 0 2 1 0 2 2 0'', ring_of ''gml:interior'' ''3 3 0 3 2 0 2 3 0'']"
proof -
  have single: "[n \<leftarrow> map snd (descendants example_polygon). name n = ''gml:exterior''] =
                [ring_of ''gml:exterior'' ''0 0 0 4 0 0 4 4 0 0 4 0'']"
    by (simp add: example_polygon_descendants ring_of_def)
  have top: "\<forall>dn\<in>set (descendants example_polygon).
               name (snd dn) = ''gml:exterior'' \<or> name (snd dn) = ''gml:interior'' \<longrightarrow> fst dn = 0"
    by (simp add: example_polygon_descendants ring_of_def)
  have ints: "[n \<leftarrow> map snd (descendants example_polygon). name n = ''gml:interior''] =
              [ring_of ''gml:interior'' ''1 1 0 2 1 0 2 2 0'', ring_of ''gml:interior'' ''3 3 0 3 2 0 2 3 0'']"
    by (simp add: example_polygon_descendants ring_of_def)
  note t = rings_of_polygon[of example_polygon "ring_of ''gml:exterior'' ''0 0 0 4 0 0 4 4 0 0 4 0''"]
  from t[THEN conjunct2, THEN conjunct1, THEN mp, OF single]
       t[THEN conjunct2, THEN conjunct2, THEN mp, OF top] single ints
  show ?thesis by simp
qed

text \<open>
  The rings are not only children of the polygon: a \<^verbatim>\<open>gml:interior\<close> element inside
  the \<^verbatim>\<open>gml:exterior\<close> child is taken as an interior ring, although the polygon has
  no \<^verbatim>\<open>gml:interior\<close> child.
\<close>

theorem nested_interior_taken:
  "RingsWalker_traverse
     (Node ''gml:Polygon'' []
        [Node ''gml:exterior'' [] [Node ''gml:interior'' ''nested'' []]])
     new_RingsWalker =
   Inr (True,
        \<lparr>exteriorRing = Some (Node ''gml:exterior'' [] [Node ''gml:interior'' ''nested'' []]),
         interiorRings = [Node ''gml:interior'' ''nested'' []]\<rparr>)
   \<and> children (Node ''gml:Polygon'' []
        [Node ''gml:exterior'' [] [Node ''gml:interior'' ''nested'' []]]) =
       [Node ''gml:exterior'' [] [Node ''gml:interior'' ''nested'' []]]"
  by code_simp

section \<open>Face classification and regeneration\<close>

text \<open>
  C4. Every face carries one pair of booleans, (inside-exterior, inside-some-hole),
  and each of the four pairs is a possible info. A triangle is appended for a face
  exactly when its pair is \<open>(True, False)\<close>; the faces with the other three pairs
  add nothing, and the function has no error result. The buffer grows by 9 floats
  for each kept face.
\<close>

theorem kept_faces_emitted:
  "addTrianglesFromTheConstrainedTriangulationOfPolygon classified_faces polygon triangles =
     (if length (points (polygon_exteriorRing polygon)) < 3 then triangles
      else triangles @
        concat (map triangle_floats [f \<leftarrow> classified_faces polygon. info f = (True, False)]))
   \<and> emit_kept_faces fs triangles =
     triangles @ concat (map triangle_floats [f \<leftarrow> fs. info f = (True, False)])
   \<and> length (emit_kept_faces fs triangles) =
       length triangles + 9 * length [f \<leftarrow> fs. info f = (True, False)]
   \<and> emit_kept_faces [f] triangles =
       (if info f = (True, False) then triangles @ triangle_floats f else triangles)"
  by (simp add: addTrianglesFromTheConstrainedTriangulationOfPolygon_def
      emit_kept_faces_filter length_concat_const[of triangle_floats 9] length_triangle_floats)

text \<open>
  C8. If every triangle buffer that an object already holds has a length that is a
  multiple of 9 (an object that has not been regenerated holds none), then after
  \<^verbatim>\<open>regenerateGeometries\<close> every triangle buffer of every object has a length that
  is a multiple of 9 and every edge buffer a length that is a multiple of 6. The
  conclusion is the hypothesis of the next regeneration, so this holds after any
  number of them.
\<close>

theorem regenerated_buffer_lengths:
  assumes "\<forall>object\<in>set objects. \<forall>k buffer.
             trianglesByType object k = Some buffer \<longrightarrow> 9 dvd length buffer"
  shows "\<forall>object\<in>set (regenerateGeometries cf objects).
           (\<forall>k buffer. trianglesByType object k = Some buffer \<longrightarrow> 9 dvd length buffer)
           \<and> 6 dvd length (edges object)"
proof
  fix object'
  assume "object' \<in> set (regenerateGeometries cf objects)"
  then obtain object where ob: "object \<in> set objects"
    and eq: "object' = regenerateEdgesFor (regenerateTrianglesFor cf object)"
    by (auto simp: regenerateGeometries_def)
  have tri: "trianglesByType object' = trianglesByType (regenerateTrianglesFor cf object)"
    by (simp add: eq regenerateEdgesFor_def)
  have "9 dvd length buffer" if "trianglesByType object' k = Some buffer" for k buffer
    using that assms ob dvd_rebuild[of cf]
    by (auto simp: tri regenerated_triangles split: option.splits)
  moreover have "6 dvd length (edges object')"
    by (simp add: eq dvd_regenerated_edges)
  ultimately show "(\<forall>k buffer. trianglesByType object' k = Some buffer \<longrightarrow> 9 dvd length buffer)
           \<and> 6 dvd length (edges object')"
    by blast
qed

theorem regenerated_example_lengths:
  "map (\<lambda>object. (map_option length (trianglesByType object ''RoofSurface''), length (edges object)))
     (regenerateGeometries example_faces [example_object]) = [(Some 18, 24)]
   \<and> 9 dvd length (the (trianglesByType (hd (regenerateGeometries example_faces [example_object]))
                       ''RoofSurface''))
   \<and> 6 dvd length (edges (hd (regenerateGeometries example_faces [example_object])))"
proof -
  let ?ob = "hd (regenerateGeometries example_faces [example_object])"
  have pre: "\<forall>object\<in>set [example_object]. \<forall>k buffer.
               trianglesByType object k = Some buffer \<longrightarrow> 9 dvd length buffer"
    by (simp add: example_object_def)
  have mem: "?ob \<in> set (regenerateGeometries example_faces [example_object])"
    by (simp add: regenerateGeometries_def)
  have val: "trianglesByType ?ob ''RoofSurface'' =
             Some [0, 0, 0, 1, 0, 0, 1, 1, 0, 0, 0, 0, 1, 1, 0, 0, 1, 0]"
    using example_regenerated by (simp add: regenerateGeometries_def)
  from regenerated_buffer_lengths[OF pre, of example_faces] mem
  have ok: "(\<forall>k buffer. trianglesByType ?ob k = Some buffer \<longrightarrow> 9 dvd length buffer)
            \<and> 6 dvd length (edges ?ob)"
    by blast
  from ok val have nine: "9 dvd length (the (trianglesByType ?ob ''RoofSurface''))"
    by (metis option.sel)
  have lens: "map (\<lambda>object. (map_option length (trianglesByType object ''RoofSurface''),
                              length (edges object)))
     (regenerateGeometries example_faces [example_object]) = [(Some 18, 24)]"
    using example_regenerated by (simp add: regenerateGeometries_def)
  from lens nine ok show ?thesis by blast
qed

end
